theory Spec2Isabelle
  imports Main "HOL-Library.Multiset" "HOL-Library.Sublist"
begin

section \<open>Strings and numbers of the host language\<close>

text \<open>
  A JavaScript string is modelled as a \<open>string\<close>: a list of code units, here the code
  units below 256. The wall clock (\<open>Date.now()\<close>) is outside the model, so the fields
  \<open>timestamp\<close>, \<open>startTime\<close>, \<open>endTime\<close> and \<open>duration\<close> are left out.

  A JavaScript number that holds a sequence index is modelled as an \<open>int\<close>, and \<open>+\<close> on
  indices as the addition of integers. The code computes with double-precision numbers:
  the model agrees with it as long as the numbers are safe integers (at most
  \<open>2 ^ 53 - 1\<close> in absolute value, \<open>Number.isSafeInteger\<close>). Beyond that range a sum is
  rounded (\<open>2 ^ 53 + 1\<close> gives \<open>2 ^ 53\<close>) and \<open>String\<close> no longer prints all digits (from
  \<open>10 ^ 21\<close> it prints an exponent), which the model does not follow. The statements below
  that depend on the value or the rendering of an index are made for safe integers.
\<close>

definition safe_integer :: "int \<Rightarrow> bool" where
  "safe_integer i = (\<bar>i\<bar> \<le> 2 ^ 53 - 1)"

text \<open>The characters \<open>String.prototype.trim\<close> removes (white space and line terminators).\<close>

definition js_whitespace :: "char \<Rightarrow> bool" where
  "js_whitespace c = (of_char c \<in> {9, 10, 11, 12, 13, 32, 160 :: nat})"

definition js_trim :: "string \<Rightarrow> string" where
  "js_trim s = rev (dropWhile js_whitespace (rev (dropWhile js_whitespace s)))"

text \<open>
  \<open>String(n)\<close> for a safe integer \<open>n\<close>: its decimal digits, with a minus sign below zero.
\<close>

fun string_of_nat :: "nat \<Rightarrow> string" where
  "string_of_nat n =
     (if n < 10 then [''0123456789'' ! n]
      else string_of_nat (n div 10) @ [''0123456789'' ! (n mod 10)])"

declare string_of_nat.simps [simp del]

definition String_number :: "int \<Rightarrow> string" where
  "String_number i = (if i < 0 then ''-'' @ string_of_nat (nat (- i)) else string_of_nat (nat i))"

text \<open>\<open>s.padStart(targetLength, fillString)\<close>.\<close>

definition padStart :: "string \<Rightarrow> nat \<Rightarrow> string \<Rightarrow> string" where
  "padStart s targetLength fillString =
     (if targetLength \<le> length s \<or> fillString = [] then s
      else take (targetLength - length s)
             (concat (replicate (targetLength - length s) fillString)) @ s)"

text \<open>
  \<open>s.replace(pat, rep)\<close> with a string pattern: only the first occurrence is replaced.
  (The replacement strings of this program hold no \<open>$\<close>, so they are taken literally.)
\<close>

fun replace_first :: "string \<Rightarrow> string \<Rightarrow> string \<Rightarrow> string" where
  "replace_first pat rep [] = (if pat = [] then rep else [])"
| "replace_first pat rep (c # cs) =
     (if prefix pat (c # cs) then rep @ drop (length pat) (c # cs)
      else c # replace_first pat rep cs)"

text \<open>
  \<open>(s.match(/{number}/g) || []).length\<close>: the number of matches of the placeholder,
  found from left to right, each search resuming after the previous match.
\<close>

fun numberPlaceholders :: "string \<Rightarrow> nat" where
  "numberPlaceholders [] = 0"
| "numberPlaceholders (c # cs) =
     (if prefix ''{number}'' (c # cs) then Suc (numberPlaceholders (drop 7 cs))
      else numberPlaceholders cs)"

section \<open>Data model\<close>

text \<open>
  The file objects built by \<open>getFileMetadata\<close>. A numeric field that may be missing is
  an \<open>int option\<close>; \<open>handle\<close> is an opaque token.
\<close>

record file_record =
  name :: string
  size_f :: "int option"
  lastModified :: "int option"
  creationTime :: "int option"
  extension :: string
  handle :: nat

text \<open>\<open>a || b\<close> on numbers that may be missing: \<open>undefined\<close>, \<open>0\<close> are falsy.\<close>

definition truthy :: "int option \<Rightarrow> bool" where
  "truthy v = (case v of None \<Rightarrow> False | Some n \<Rightarrow> n \<noteq> 0)"

definition js_or :: "int option \<Rightarrow> int option \<Rightarrow> int option" where
  "js_or a b = (if truthy a then a else b)"

text \<open>\<open>v || 0\<close> read as a number.\<close>

definition or_zero :: "int option \<Rightarrow> int" where
  "or_zero v = (case v of None \<Rightarrow> 0 | Some n \<Rightarrow> n)"

section \<open>FileRenamer: pattern validation\<close>

definition invalidChars :: "char \<Rightarrow> bool" where
  "invalidChars c =
     (c \<in> set ''<>:/|?*'' \<or> c = CHR 0x22 \<or> c = CHR 0x5C \<or> (of_char c :: nat) < 32)"

definition upper_ascii :: "char \<Rightarrow> char" where
  "upper_ascii c =
     (if 97 \<le> (of_char c :: nat) \<and> (of_char c :: nat) \<le> 122
      then char_of ((of_char c :: nat) - 32) else c)"

text \<open>\<open>/^(CON|PRN|AUX|NUL|COM[1-9]|LPT[1-9])$/i\<close>\<close>

definition reservedNames :: "string \<Rightarrow> bool" where
  "reservedNames s =
     (let u = map upper_ascii s in
      u \<in> set [''CON'', ''PRN'', ''AUX'', ''NUL''] \<or>
      (length u = 4 \<and> (take 3 u = ''COM'' \<or> take 3 u = ''LPT'') \<and> u ! 3 \<in> set ''123456789''))"

definition startsWith_dot :: "string \<Rightarrow> bool" where
  "startsWith_dot s = (case s of [] \<Rightarrow> False | c # _ \<Rightarrow> c = CHR ''.'')"

definition endsWith_dot :: "string \<Rightarrow> bool" where
  "endsWith_dot s = startsWith_dot (rev s)"

record validation =
  isValid :: bool
  v_errors :: "string list"

definition validatePattern :: "string \<Rightarrow> validation" where
  "validatePattern pattern =
     (if js_trim pattern = [] then
        \<lparr>isValid = False, v_errors = [''Pattern cannot be empty'']\<rparr>
      else
        let trimmedPattern = js_trim pattern;
            e1 = (if numberPlaceholders trimmedPattern \<noteq> 1
                  then [''Pattern must contain exactly one {number} placeholder''] else []);
            e2 = (if list_ex invalidChars trimmedPattern
                  then [''Pattern contains invalid characters: < > : '' @ [CHR 0x22] @ '' / ''
                        @ [CHR 0x5C] @ '' | ? * or control characters''] else []);
            e3 = (if length trimmedPattern > 200
                  then [''Pattern is too long (maximum 200 characters)''] else []);
            patternWithoutNumber = js_trim (replace_first ''{number}'' [] trimmedPattern);
            e4 = (if reservedNames patternWithoutNumber
                  then [''Pattern cannot use reserved Windows names''] else []);
            e5 = (if startsWith_dot trimmedPattern \<or> endsWith_dot trimmedPattern
                  then [''Pattern cannot start or end with a dot''] else []);
            errs = e1 @ e2 @ e3 @ e4 @ e5
        in \<lparr>isValid = (errs = []), v_errors = errs\<rparr>)"

section \<open>FileRenamer: name generation and collision handling\<close>

definition generateNewName :: "string \<Rightarrow> int \<Rightarrow> nat \<Rightarrow> string \<Rightarrow> string" where
  "generateNewName pattern index padding ext =
     (let paddedNumber = padStart (String_number index) padding ''0'';
          newName = replace_first ''{number}'' paddedNumber pattern
      in if ext \<noteq> [] \<and> js_trim ext \<noteq> [] then newName @ ext else newName)"

datatype collision =
    Existing string file_record
  | Directory string
  | Unknown string string

record collision_check =
  hasCollisions :: bool
  collisions :: "collision list"

text \<open>
  The existence probe of the file-system collaborator is a parameter \<open>fileExists\<close>:
  \<open>Inr b\<close> when it answers \<open>b\<close>, \<open>Inl msg\<close> when it fails with an error of message
  \<open>msg\<close>. Planning does not change the folder, so the probe is a function of the name.
\<close>

type_synonym exists_probe = "string \<Rightarrow> string + bool"

definition checkForCollisions :: "exists_probe \<Rightarrow> string \<Rightarrow> file_record list \<Rightarrow> collision_check" where
  "checkForCollisions fileExists newName existingFiles =
     (let c1 = map (\<lambda>f. Existing newName f) (filter (\<lambda>f. name f = newName) existingFiles);
          c2 = (case fileExists newName of
                  Inr b \<Rightarrow> (if b then [Directory newName] else [])
                | Inl msg \<Rightarrow> [Unknown newName msg]);
          cs = c1 @ c2
      in \<lparr>hasCollisions = (length cs > 0), collisions = cs\<rparr>)"

datatype resolve_result =
    Resolved string int nat int
  | Unresolved nat int string

text \<open>
  The \<open>while (attempts < maxAttempts)\<close> loop of \<open>resolveCollision\<close>, as a function of
  the loop variable \<open>attempts\<close>; the constructor arguments are \<open>newName\<close>, \<open>newIndex\<close>,
  \<open>attempts\<close>, \<open>originalIndex\<close>, respectively \<open>attempts\<close>, \<open>originalIndex\<close>, \<open>error\<close>.
\<close>

function resolve_loop ::
  "exists_probe \<Rightarrow> string \<Rightarrow> int \<Rightarrow> nat \<Rightarrow> string \<Rightarrow> file_record list \<Rightarrow> nat \<Rightarrow> nat \<Rightarrow> resolve_result"
where
  "resolve_loop fileExists pattern currentIndex padding ext existingFiles maxAttempts attempts =
     (if attempts < maxAttempts then
        let newIndex = currentIndex + int attempts + 1;
            newName = generateNewName pattern newIndex padding ext;
            collisionCheck = checkForCollisions fileExists newName existingFiles
        in if \<not> hasCollisions collisionCheck
           then Resolved newName newIndex (attempts + 1) currentIndex
           else resolve_loop fileExists pattern currentIndex padding ext existingFiles
                  maxAttempts (attempts + 1)
      else Unresolved maxAttempts currentIndex
             (''Could not resolve collision after '' @ string_of_nat maxAttempts @ '' attempts''))"
  by pat_completeness auto
termination
  by (relation "measure (\<lambda>(fe, p, ci, pd, e, fs, m, a). m - a)") auto

declare resolve_loop.simps [simp del]

definition resolveCollision ::
  "exists_probe \<Rightarrow> string \<Rightarrow> int \<Rightarrow> nat \<Rightarrow> string \<Rightarrow> file_record list \<Rightarrow> nat \<Rightarrow> resolve_result"
where
  "resolveCollision fileExists pattern currentIndex padding ext existingFiles maxAttempts =
     resolve_loop fileExists pattern currentIndex padding ext existingFiles maxAttempts 0"

section \<open>FileRenamer: generatePreview\<close>

record preview_entry =
  originalName :: string
  newName :: string
  originalIndex :: nat
  actualIndex :: int
  entry_file :: file_record
  collisionResolved :: bool
  entry_size :: "int option"
  entry_creationTime :: "int option"
  entry_extension :: string

text \<open>The audit records pushed on \<open>collisionResolutions\<close>.\<close>

record collision_resolution =
  cr_originalFile :: file_record
  cr_originalName :: string
  cr_originalIndex :: int
  resolvedName :: string
  resolvedIndex :: int
  cr_attempts :: nat

text \<open>
  The \<open>options\<close> argument; a missing field takes its default (\<open>resolveCollisions = true\<close>,
  \<open>startIndex = 1\<close>).
\<close>

record plan_options =
  resolveCollisions :: "bool option"
  startIndex :: "int option"

text \<open>The object returned; the last four fields exist only when \<open>success\<close> is true.\<close>

record preview_result =
  success :: bool
  errors :: "string list"
  previewData :: "preview_entry list"
  res_collisionResolutions :: "collision_resolution list option"
  res_totalFiles :: "nat option"
  res_pattern :: "string option"
  res_padding :: "nat option"

text \<open>The entries of the operation log, and the state of a \<open>FileRenamer\<close> object.\<close>

record log_entry =
  log_operation :: string
  log_originalName :: string
  log_newName :: string
  log_status :: string
  log_error :: "string option"

record renamer =
  operationLog :: "log_entry list"
  collisionResolutions :: "collision_resolution list"

text \<open>The local variables of the \<open>for\<close> loop of \<open>generatePreview\<close>.\<close>

record preview_vars =
  v_previewData :: "preview_entry list"
  v_usedNames :: "string set"
  v_collisionResolutions :: "collision_resolution list"
  v_currentIndex :: int

definition quote :: "string \<Rightarrow> string" where
  "quote s = [CHR 0x22] @ s @ [CHR 0x22]"

text \<open>
  One iteration of the loop, for the file at position \<open>i\<close> (0-based). \<open>Inl\<close> is the early
  \<open>return\<close> of a failed plan, with its \<open>errors\<close> and the \<open>previewData\<close> built so far.
\<close>

definition preview_step ::
  "exists_probe \<Rightarrow> bool \<Rightarrow> file_record list \<Rightarrow> string \<Rightarrow> nat \<Rightarrow> nat \<Rightarrow> file_record \<Rightarrow> preview_vars
     \<Rightarrow> (string list \<times> preview_entry list) + preview_vars"
where
  "preview_step fileExists rc files pattern padding i f vs =
     (let currentIndex = v_currentIndex vs;
          newName0 = generateNewName pattern currentIndex padding (extension f);
          checked =
            (if rc \<and> hasCollisions (checkForCollisions fileExists newName0 files) then
               (case resolveCollision fileExists pattern currentIndex padding (extension f) files 1000 of
                  Resolved rName rIndex rAttempts rOriginal \<Rightarrow>
                    Inr (rName, rIndex, True,
                         v_collisionResolutions vs @
                           [\<lparr>cr_originalFile = f, cr_originalName = name f,
                             cr_originalIndex = currentIndex, resolvedName = rName,
                             resolvedIndex = rIndex, cr_attempts = rAttempts\<rparr>])
                | Unresolved rAttempts rOriginal err \<Rightarrow>
                    Inl ([''Could not resolve naming collision for '' @ quote (name f) @ '': '' @ err],
                         v_previewData vs))
             else Inr (newName0, currentIndex, False, v_collisionResolutions vs))
      in case checked of
           Inl failure \<Rightarrow> Inl failure
         | Inr (newName1, actualIndex1, resolved1, crs) \<Rightarrow>
             if newName1 \<in> v_usedNames vs then
               Inl ([''Duplicate name generated: '' @ quote newName1 @ '' for files '' @ quote (name f)],
                    v_previewData vs)
             else
               Inr \<lparr>v_previewData = v_previewData vs @
                       [\<lparr>originalName = name f, newName = newName1, originalIndex = i + 1,
                         actualIndex = actualIndex1, entry_file = f, collisionResolved = resolved1,
                         entry_size = size_f f,
                         entry_creationTime = js_or (creationTime f) (lastModified f),
                         entry_extension = extension f\<rparr>],
                    v_usedNames = insert newName1 (v_usedNames vs),
                    v_collisionResolutions = crs,
                    v_currentIndex = actualIndex1 + 1\<rparr>)"

text \<open>
  The loop \<open>for (let i = 0; i < files.length; i++)\<close>: \<open>rest\<close> holds \<open>files[i..]\<close>, the
  files still to be planned.
\<close>

fun preview_loop ::
  "exists_probe \<Rightarrow> bool \<Rightarrow> file_record list \<Rightarrow> string \<Rightarrow> nat \<Rightarrow> nat \<Rightarrow> file_record list \<Rightarrow> preview_vars
     \<Rightarrow> (string list \<times> preview_entry list) + preview_vars"
where
  "preview_loop fileExists rc files pattern padding i [] vs = Inr vs"
| "preview_loop fileExists rc files pattern padding i (f # rest) vs =
     (case preview_step fileExists rc files pattern padding i f vs of
        Inl failure \<Rightarrow> Inl failure
      | Inr vs' \<Rightarrow> preview_loop fileExists rc files pattern padding (Suc i) rest vs')"

definition generatePreview ::
  "exists_probe \<Rightarrow> file_record list \<Rightarrow> string \<Rightarrow> nat \<Rightarrow> plan_options \<Rightarrow> renamer
     \<Rightarrow> preview_result \<times> renamer"
where
  "generatePreview fileExists files pattern padding options this =
     (let rc = (case resolveCollisions options of None \<Rightarrow> True | Some b \<Rightarrow> b);
          start = (case startIndex options of None \<Rightarrow> 1 | Some n \<Rightarrow> n);
          patternValidation = validatePattern pattern
      in if \<not> isValid patternValidation then
           (\<lparr>success = False, errors = v_errors patternValidation, previewData = [],
             res_collisionResolutions = None, res_totalFiles = None, res_pattern = None,
             res_padding = None\<rparr>, this)
         else
           (case preview_loop fileExists rc files pattern padding 0 files
                   \<lparr>v_previewData = [], v_usedNames = {}, v_collisionResolutions = [],
                    v_currentIndex = start\<rparr> of
              Inl (errs, partial) \<Rightarrow>
                (\<lparr>success = False, errors = errs, previewData = partial,
                  res_collisionResolutions = None, res_totalFiles = None, res_pattern = None,
                  res_padding = None\<rparr>, this)
            | Inr vs \<Rightarrow>
                (\<lparr>success = True, errors = [], previewData = v_previewData vs,
                  res_collisionResolutions = Some (v_collisionResolutions vs),
                  res_totalFiles = Some (length files), res_pattern = Some pattern,
                  res_padding = Some padding\<rparr>,
                 this\<lparr>collisionResolutions := v_collisionResolutions vs\<rparr>)))"

text \<open>
  \<open>FileSystemManager.fileExists\<close>: \<open>dir\<close> is the selected folder, if any, as the outcome
  of \<open>getFileHandle\<close> for each name.
\<close>

datatype lookup = Found | NotFoundError | OtherError

definition fileExists :: "(string \<Rightarrow> lookup) option \<Rightarrow> exists_probe" where
  "fileExists directoryHandle fileName =
     (case directoryHandle of
        None \<Rightarrow> Inr False
      | Some getFileHandle \<Rightarrow>
          (case getFileHandle fileName of
             Found \<Rightarrow> Inr True
           | NotFoundError \<Rightarrow> Inr False
           | OtherError \<Rightarrow> Inr True))"

section \<open>FileRenamer: executeRenaming and the operation log\<close>

record rename_ok =
  ok_originalName :: string
  ok_newName :: string
  ok_file :: file_record

record rename_failure =
  ko_originalName :: string
  ko_newName :: string
  ko_file :: file_record
  ko_error :: string

record operation_result =
  successful :: "rename_ok list"
  failed :: "rename_failure list"
  totalFiles :: nat

text \<open>
  The collaborators act on the world outside the program, of any type \<open>'w\<close>. The rename
  primitive takes a handle and a name and answers \<open>Inr b\<close> (it returned \<open>b\<close>) or
  \<open>Inl msg\<close> (it failed with an error of message \<open>msg\<close>); the progress callback answers
  \<open>Some msg\<close> when it throws an error of message \<open>msg\<close>, \<open>None\<close> when it returns.
\<close>

type_synonym 'w rename_prim = "nat \<Rightarrow> string \<Rightarrow> 'w \<Rightarrow> (string + bool) \<times> 'w"

type_synonym 'w progress_cb = "nat \<Rightarrow> nat \<Rightarrow> string \<Rightarrow> string \<Rightarrow> 'w \<Rightarrow> string option \<times> 'w"

text \<open>
  The variables of the loop of \<open>executeRenaming\<close>: \<open>results\<close>, the object \<open>this\<close>, the
  world, and the invocations of the rename primitive made so far (handle and new name),
  kept to tell which calls were made.
\<close>

record 'w exec_vars =
  x_results :: operation_result
  x_this :: renamer
  x_world :: 'w
  x_calls :: "(nat \<times> string) list"

text \<open>The body of the \<open>catch\<close> block.\<close>

definition on_failure :: "preview_entry \<Rightarrow> string \<Rightarrow> 'w exec_vars \<Rightarrow> 'w exec_vars" where
  "on_failure item msg vs =
     vs\<lparr>x_results := (x_results vs)\<lparr>failed := failed (x_results vs) @
            [\<lparr>ko_originalName = originalName item, ko_newName = newName item,
              ko_file = entry_file item, ko_error = msg\<rparr>]\<rparr>,
        x_this := (x_this vs)\<lparr>operationLog := operationLog (x_this vs) @
            [\<lparr>log_operation = ''rename'', log_originalName = originalName item,
              log_newName = newName item, log_status = ''failed'', log_error = Some msg\<rparr>]\<rparr>\<rparr>"

text \<open>The branch \<open>if (success)\<close>.\<close>

definition on_success :: "preview_entry \<Rightarrow> 'w exec_vars \<Rightarrow> 'w exec_vars" where
  "on_success item vs =
     vs\<lparr>x_results := (x_results vs)\<lparr>successful := successful (x_results vs) @
            [\<lparr>ok_originalName = originalName item, ok_newName = newName item,
              ok_file = entry_file item\<rparr>]\<rparr>,
        x_this := (x_this vs)\<lparr>operationLog := operationLog (x_this vs) @
            [\<lparr>log_operation = ''rename'', log_originalName = originalName item,
              log_newName = newName item, log_status = ''success'', log_error = None\<rparr>]\<rparr>\<rparr>"

text \<open>
  The message the \<open>catch\<close> block records when the rename primitive did not succeed:
  that of the error it failed with, or that of the error thrown when it returned false.
\<close>

definition captured_message :: "string + bool \<Rightarrow> string" where
  "captured_message res =
     (case res of Inl msg \<Rightarrow> msg | Inr ok \<Rightarrow> ''Rename operation returned false'')"

text \<open>The notification \<open>if (progressCallback) progressCallback(i + 1, ...)\<close>.\<close>

definition notify ::
  "'w progress_cb option \<Rightarrow> nat \<Rightarrow> nat \<Rightarrow> preview_entry \<Rightarrow> 'w \<Rightarrow> string option \<times> 'w"
where
  "notify progressCallback i len item w =
     (case progressCallback of
        None \<Rightarrow> (None, w)
      | Some cb \<Rightarrow> cb (i + 1) len (originalName item) (newName item) w)"

text \<open>One iteration of the loop, for the entry at position \<open>i\<close> (0-based).\<close>

definition rename_step ::
  "'w progress_cb option \<Rightarrow> 'w rename_prim \<Rightarrow> nat \<Rightarrow> nat \<Rightarrow> preview_entry \<Rightarrow> 'w exec_vars
     \<Rightarrow> 'w exec_vars"
where
  "rename_step progressCallback renameFile len i item vs =
     (case notify progressCallback i len item (x_world vs) of
        (Some msg, w1) \<Rightarrow> on_failure item msg (vs\<lparr>x_world := w1\<rparr>)
      | (None, w1) \<Rightarrow>
          (let vs1 = vs\<lparr>x_world := w1,
                        x_calls := x_calls vs @ [(handle (entry_file item), newName item)]\<rparr>
           in case renameFile (handle (entry_file item)) (newName item) w1 of
                (Inr ok, w2) \<Rightarrow>
                  if ok then on_success item (vs1\<lparr>x_world := w2\<rparr>)
                  else on_failure item ''Rename operation returned false'' (vs1\<lparr>x_world := w2\<rparr>)
              | (Inl msg, w2) \<Rightarrow> on_failure item msg (vs1\<lparr>x_world := w2\<rparr>)))"

fun rename_loop ::
  "'w progress_cb option \<Rightarrow> 'w rename_prim \<Rightarrow> nat \<Rightarrow> nat \<Rightarrow> preview_entry list \<Rightarrow> 'w exec_vars
     \<Rightarrow> 'w exec_vars"
where
  "rename_loop progressCallback renameFile len i [] vs = vs"
| "rename_loop progressCallback renameFile len i (item # items) vs =
     rename_loop progressCallback renameFile len (Suc i) items
       (rename_step progressCallback renameFile len i item vs)"

text \<open>
  \<open>executeRenaming\<close> (its argument \<open>previewData\<close> is \<open>entries\<close> here): the state before the loop has empty result lists and, by the
  assignment \<open>this.operationLog = []\<close>, an empty log.
\<close>

definition exec_init :: "preview_entry list \<Rightarrow> renamer \<Rightarrow> 'w \<Rightarrow> 'w exec_vars" where
  "exec_init entries this w =
     \<lparr>x_results = \<lparr>successful = [], failed = [], totalFiles = length entries\<rparr>,
      x_this = this\<lparr>operationLog := []\<rparr>, x_world = w, x_calls = []\<rparr>"

definition executeRenaming ::
  "'w rename_prim \<Rightarrow> preview_entry list \<Rightarrow> 'w progress_cb option \<Rightarrow> renamer \<Rightarrow> 'w \<Rightarrow> 'w exec_vars"
where
  "executeRenaming renameFile entries progressCallback this w =
     rename_loop progressCallback renameFile (length entries) 0 entries
       (exec_init entries this w)"

definition getOperationLog :: "renamer \<Rightarrow> log_entry list" where
  "getOperationLog this = operationLog this"

definition clearLogs :: "renamer \<Rightarrow> renamer" where
  "clearLogs this = this\<lparr>operationLog := [], collisionResolutions := []\<rparr>"

text \<open>
  \<open>FileSystemManager.renameFile\<close>, over the host's \<open>fileHandle.move\<close>, which answers
  \<open>None\<close> or the error it throws (its \<open>name\<close> and \<open>message\<close>).
\<close>

record host_error =
  err_name :: string
  err_message :: string

type_synonym 'w move_prim = "nat \<Rightarrow> string \<Rightarrow> 'w \<Rightarrow> host_error option \<times> 'w"

definition rethrow :: "host_error \<Rightarrow> string" where
  "rethrow e =
     (if err_name e = ''NotAllowedError'' then ''Permission denied to rename file: '' @ err_message e
      else if err_name e = ''NotFoundError'' then ''File not found or was deleted during operation''
      else if err_name e = ''NoModificationAllowedError'' then ''File is locked or cannot be modified''
      else ''Failed to rename file: '' @ err_message e)"

definition invalidNameChars :: "char \<Rightarrow> bool" where
  "invalidNameChars c = (c \<in> set ''<>:/|?*'' \<or> c = CHR 0x22 \<or> c = CHR 0x5C)"

definition renameFile :: "'w move_prim \<Rightarrow> 'w rename_prim" where
  "renameFile move fileHandle newName' w =
     (if js_trim newName' = [] then
        (Inl (rethrow \<lparr>err_name = ''Error'', err_message = ''File name cannot be empty''\<rparr>), w)
      else if list_ex invalidNameChars newName' then
        (Inl (rethrow \<lparr>err_name = ''Error'',
                       err_message = ''File name contains invalid characters''\<rparr>), w)
      else if length newName' > 255 then
        (Inl (rethrow \<lparr>err_name = ''Error'',
                       err_message = ''File name is too long (max 255 characters)''\<rparr>), w)
      else (case move fileHandle newName' w of
              (None, w') \<Rightarrow> (Inr True, w')
            | (Some e, w') \<Rightarrow> (Inl (rethrow e), w')))"

section \<open>FileSorter: sortFiles\<close>

record sort_option =
  field :: string
  order :: string
  label :: string

definition sortOptions :: "(string \<times> sort_option) list" where
  "sortOptions =
     [(''size-asc'', \<lparr>field = ''size'', order = ''asc'', label = ''Size (smallest to largest)''\<rparr>),
      (''size-desc'', \<lparr>field = ''size'', order = ''desc'', label = ''Size (largest to smallest)''\<rparr>),
      (''date-asc'', \<lparr>field = ''creationTime'', order = ''asc'',
                     label = ''Creation Date (oldest first)''\<rparr>),
      (''date-desc'', \<lparr>field = ''creationTime'', order = ''desc'',
                      label = ''Creation Date (newest first)''\<rparr>)]"

text \<open>
  \<open>this.sortOptions[sortOption]\<close> is a property read on an object literal: it finds the
  four own properties, then the members every object inherits from \<open>Object.prototype\<close>
  (all of them truthy, none with a \<open>field\<close> or an \<open>order\<close>), and is \<open>undefined\<close> otherwise.
\<close>

definition Object_prototype :: "string list" where
  "Object_prototype =
     [''constructor'', ''hasOwnProperty'', ''isPrototypeOf'', ''propertyIsEnumerable'',
      ''toLocaleString'', ''toString'', ''valueOf'', ''__proto__'', ''__defineGetter__'',
      ''__defineSetter__'', ''__lookupGetter__'', ''__lookupSetter__'']"

datatype property = OwnOption sort_option | Inherited | Undefined

definition get_sortOption :: "string \<Rightarrow> property" where
  "get_sortOption sortOption =
     (case map_of sortOptions sortOption of
        Some opt \<Rightarrow> OwnOption opt
      | None \<Rightarrow> if sortOption \<in> set Object_prototype then Inherited else Undefined)"

text \<open>The values compared: \<open>a.size || 0\<close> and \<open>a.creationTime || a.lastModified || 0\<close>.\<close>

definition size_value :: "file_record \<Rightarrow> int" where
  "size_value a = or_zero (size_f a)"

definition date_value :: "file_record \<Rightarrow> int" where
  "date_value a = or_zero (js_or (js_or (creationTime a) (lastModified a)) (Some 0))"

text \<open>The comparator passed to \<open>sort\<close>; \<open>Inl msg\<close> when it throws.\<close>

definition compareFiles :: "property \<Rightarrow> file_record \<Rightarrow> file_record \<Rightarrow> string + int" where
  "compareFiles option a b =
     (case option of
        OwnOption opt \<Rightarrow>
          if field opt = ''size'' then
            (if order opt = ''asc'' then Inr (size_value a - size_value b)
             else Inr (size_value b - size_value a))
          else if field opt = ''creationTime'' then
            (if order opt = ''asc'' then Inr (date_value a - date_value b)
             else Inr (date_value b - date_value a))
          else Inl (''Unknown sort field: '' @ field opt)
      | _ \<Rightarrow> Inl ''Unknown sort field: undefined'')"

text \<open>
  \<open>Array.prototype.sort\<close> with a comparator is a stable sort (ECMAScript 2019); it is
  modelled as the stable insertion sort, which asks the comparator only when the array
  has two elements or more. An error thrown by the comparator ends the sort.
\<close>

fun insert_sorted :: "('a \<Rightarrow> 'a \<Rightarrow> string + int) \<Rightarrow> 'a \<Rightarrow> 'a list \<Rightarrow> string + 'a list" where
  "insert_sorted cmp x [] = Inr [x]"
| "insert_sorted cmp x (y # ys) =
     (case cmp x y of
        Inl e \<Rightarrow> Inl e
      | Inr v \<Rightarrow>
          if v \<le> 0 then Inr (x # y # ys)
          else (case insert_sorted cmp x ys of Inl e \<Rightarrow> Inl e | Inr zs \<Rightarrow> Inr (y # zs)))"

fun Array_sort :: "('a \<Rightarrow> 'a \<Rightarrow> string + int) \<Rightarrow> 'a list \<Rightarrow> string + 'a list" where
  "Array_sort cmp [] = Inr []"
| "Array_sort cmp (x # xs) =
     (case Array_sort cmp xs of Inl e \<Rightarrow> Inl e | Inr ys \<Rightarrow> insert_sorted cmp x ys)"

text \<open>
  Arrays are objects with identity: the store holds one array per address, the
  addresses in use being those below its length. The argument \<open>files\<close> of \<open>sortFiles\<close>
  is a reference to an array or some other value; an address outside the store denotes
  no array.
\<close>

type_synonym store = "file_record list list"

datatype js_value = ArrayRef nat | NonArray

definition as_array :: "store \<Rightarrow> js_value \<Rightarrow> file_record list option" where
  "as_array h v =
     (case v of ArrayRef a \<Rightarrow> (if a < length h then Some (h ! a) else None) | NonArray \<Rightarrow> None)"

definition alloc :: "store \<Rightarrow> file_record list \<Rightarrow> nat \<times> store" where
  "alloc h xs = (length h, h @ [xs])"

text \<open>
  \<open>sortFiles\<close> returns the address of its result, or \<open>Inl msg\<close> when it throws. The copy
  \<open>[...files]\<close> is a new array, sorted in place.
\<close>

definition sortFiles :: "store \<Rightarrow> js_value \<Rightarrow> string \<Rightarrow> (string + nat) \<times> store" where
  "sortFiles h files sortOption =
     (case as_array h files of
        None \<Rightarrow> (let (r, h') = alloc h [] in (Inr r, h'))
      | Some xs \<Rightarrow>
          if length xs = 0 then (let (r, h') = alloc h [] in (Inr r, h'))
          else
            (case get_sortOption sortOption of
               Undefined \<Rightarrow> (Inl (''Invalid sort option: '' @ sortOption), h)
             | option \<Rightarrow>
                 (let (sortedFiles, h1) = alloc h xs
                  in case Array_sort (compareFiles option) xs of
                       Inl e \<Rightarrow> (Inl e, h1)
                     | Inr ys \<Rightarrow> (Inr sortedFiles, h1[sortedFiles := ys]))))"

section \<open>FileSystemManager: the extension of a file\<close>

text \<open>\<open>s.lastIndexOf(c)\<close>: the last position of \<open>c\<close> in \<open>s\<close>, or \<open>-1\<close>.\<close>

definition lastIndexOf :: "char \<Rightarrow> string \<Rightarrow> int" where
  "lastIndexOf c s =
     (if c \<in> set s
      then int (length s) - 1 - int (length (takeWhile (\<lambda>x. x \<noteq> c) (rev s)))
      else - 1)"

text \<open>
  The field \<open>extension\<close> as \<open>getFileMetadata\<close> computes it from the file name:
  \<open>lastDotIndex > 0 ? fileName.substring(lastDotIndex) : ''\<close>.
\<close>

definition metadata_extension :: "string \<Rightarrow> string" where
  "metadata_extension fileName =
     (let lastDotIndex = lastIndexOf CHR ''.'' fileName
      in if lastDotIndex > 0 then drop (nat lastDotIndex) fileName else [])"

text \<open>The invariant of the field: an extension is empty or begins with the dot.\<close>

definition wf_extension :: "string \<Rightarrow> bool" where
  "wf_extension ext = (ext = [] \<or> startsWith_dot ext)"

section \<open>The specification's words\<close>

text \<open>
  The terms in which the candidate name is specified: a string left-padded with zeros
  to a width, and the rendering of an index in decimal. A decimal numeral of \<open>n\<close> is a
  non-empty string of the digits \<open>0\<close> to \<open>9\<close>, without a leading zero unless it is \<open>0\<close>,
  that denotes \<open>n\<close>; the rendering of a negative index is \<open>-\<close> and the numeral of its
  absolute value.
\<close>

definition zero_padded :: "nat \<Rightarrow> string \<Rightarrow> string" where
  "zero_padded width s = replicate (width - length s) CHR ''0'' @ s"

definition decimal_value :: "string \<Rightarrow> nat" where
  "decimal_value s = foldl (\<lambda>a c. 10 * a + (of_char c - 48)) 0 s"

definition decimal_numeral :: "nat \<Rightarrow> string \<Rightarrow> bool" where
  "decimal_numeral n s =
     (s \<noteq> [] \<and> set s \<subseteq> set ''0123456789'' \<and> (hd s \<noteq> CHR ''0'' \<or> s = ''0'')
      \<and> decimal_value s = n)"

definition decimal_rendering :: "int \<Rightarrow> string \<Rightarrow> bool" where
  "decimal_rendering i s =
     (if i < 0 then s \<noteq> [] \<and> hd s = CHR ''-'' \<and> decimal_numeral (nat (- i)) (tl s)
      else decimal_numeral (nat i) s)"

text \<open>
  A candidate name collides when a file of the input already has that name, when the
  existence check says the name exists in the folder, or when the check itself fails.
\<close>

definition name_collides :: "exists_probe \<Rightarrow> file_record list \<Rightarrow> string \<Rightarrow> bool" where
  "name_collides probe files n =
     (n \<in> set (map name files) \<or> probe n = Inr True \<or> isl (probe n))"

text \<open>
  The four sort keys, the value each compares, and its direction. A size that is
  missing counts as 0. The date of a file is its \<open>creationTime\<close>, or else its
  \<open>lastModified\<close>, or else 0, where a field is passed over when it is absent: missing,
  or 0 (the comparator reads the fields through \<open>||\<close>, for which 0 is no value).
  \<open>in_order key a b\<close> says that the comparator of \<open>key\<close> does not put \<open>b\<close> before \<open>a\<close>
  (\<open>a - b \<le> 0\<close> ascending, \<open>b - a \<le> 0\<close> descending).
\<close>

definition sort_keys :: "string list" where
  "sort_keys = [''size-asc'', ''size-desc'', ''date-asc'', ''date-desc'']"





section \<open>Example inputs\<close>

definition a_jpg :: file_record where
  "a_jpg = \<lparr>name = ''a.jpg'', size_f = Some 10, lastModified = Some 1000,
            creationTime = Some 1000, extension = ''.jpg'', handle = 1\<rparr>"

definition b_png :: file_record where
  "b_png = \<lparr>name = ''b.png'', size_f = Some 5, lastModified = Some 2000,
            creationTime = Some 2000, extension = ''.png'', handle = 2\<rparr>"

definition c_gif :: file_record where
  "c_gif = \<lparr>name = ''c.gif'', size_f = Some 7, lastModified = Some 3000,
            creationTime = Some 3000, extension = ''.gif'', handle = 3\<rparr>"



text \<open>A selected folder that holds exactly the files of the given names.\<close>

definition folder :: "string list \<Rightarrow> (string \<Rightarrow> lookup) option" where
  "folder names = Some (\<lambda>n. if n \<in> set names then Found else NotFoundError)"

definition default_options :: plan_options where
  "default_options = \<lparr>resolveCollisions = None, startIndex = None\<rparr>"

definition new_renamer :: renamer where
  "new_renamer = \<lparr>operationLog = [], collisionResolutions = []\<rparr>"

text \<open>
  The files \<open>a.jpg, b.png\<close> of a folder that holds only these two, sorted by
  \<open>size-asc\<close>, and the plan for the sorted files.
\<close>

definition example1_sorted :: "file_record list" where
  "example1_sorted =
     (case sortFiles [[a_jpg, b_png]] (ArrayRef 0) ''size-asc'' of
        (Inr r, h) \<Rightarrow> h ! r
      | (Inl e, h) \<Rightarrow> [])"

definition example1_plan :: preview_result where
  "example1_plan =
     fst (generatePreview (fileExists (folder [''a.jpg'', ''b.png''])) example1_sorted
            ''file_{number}'' 3 default_options new_renamer)"

text \<open>
  The plan for \<open>b.png, a.jpg, c.gif\<close> in a folder that also holds \<open>file_002.jpg\<close>, and
  the loop variables of that plan when it reaches \<open>c.gif\<close>.
\<close>

definition example2_plan :: preview_result where
  "example2_plan =
     fst (generatePreview (fileExists (folder [''a.jpg'', ''b.png'', ''c.gif'', ''file_002.jpg'']))
            [b_png, a_jpg, c_gif] ''file_{number}'' 3 default_options new_renamer)"

definition example2_reaching_c ::
  "(string list \<times> preview_entry list) + preview_vars" where
  "example2_reaching_c =
     preview_loop (fileExists (folder [''a.jpg'', ''b.png'', ''c.gif'', ''file_002.jpg'']))
       True [b_png, a_jpg, c_gif] ''file_{number}'' 3 0 [b_png, a_jpg]
       \<lparr>v_previewData = [], v_usedNames = {}, v_collisionResolutions = [], v_currentIndex = 1\<rparr>"

text \<open>
  The plan for \<open>b.png\<close> with collision resolution switched off, in a folder that
  already holds \<open>file_001.png\<close>.
\<close>

definition unresolved_plan :: preview_result where
  "unresolved_plan =
     fst (generatePreview (fileExists (folder [''b.png'', ''file_001.png''])) [b_png]
            ''file_{number}'' 3 \<lparr>resolveCollisions = Some False, startIndex = None\<rparr> new_renamer)"

text \<open>
  Two file objects built by hand, without a dot in their names, the first with the
  extension \<open>1\<close> (which \<open>getFileMetadata\<close> would not produce), in a folder where every
  name but \<open>f11\<close> is taken.
\<close>

definition x_file :: file_record where
  "x_file = \<lparr>name = ''x'', size_f = Some 1, lastModified = Some 1, creationTime = Some 1,
             extension = ''1'', handle = 4\<rparr>"

definition y_file :: file_record where
  "y_file = \<lparr>name = ''y'', size_f = Some 2, lastModified = Some 2, creationTime = Some 2,
             extension = [], handle = 5\<rparr>"

definition all_but_f11 :: exists_probe where
  "all_but_f11 n = Inr (n \<noteq> ''f11'')"

text \<open>
  A host where moving the file of handle 1 fails because the file is locked; the world
  is the list of the moves done. The entries executed are those of \<open>example2_plan\<close>,
  here \<open>entry_b\<close>, \<open>entry_a\<close>, \<open>entry_c\<close>; the second is \<open>a.jpg\<close>, of handle 1.
\<close>

definition entry_b :: preview_entry where
  "entry_b = \<lparr>originalName = ''b.png'', newName = ''file_001.png'', originalIndex = 1,
               actualIndex = 1, entry_file = b_png, collisionResolved = False,
               entry_size = Some 5, entry_creationTime = Some 2000, entry_extension = ''.png''\<rparr>"

definition entry_a :: preview_entry where
  "entry_a = \<lparr>originalName = ''a.jpg'', newName = ''file_003.jpg'', originalIndex = 2,
               actualIndex = 3, entry_file = a_jpg, collisionResolved = True,
               entry_size = Some 10, entry_creationTime = Some 1000, entry_extension = ''.jpg''\<rparr>"

definition entry_c :: preview_entry where
  "entry_c = \<lparr>originalName = ''c.gif'', newName = ''file_004.gif'', originalIndex = 3,
               actualIndex = 4, entry_file = c_gif, collisionResolved = False,
               entry_size = Some 7, entry_creationTime = Some 3000, entry_extension = ''.gif''\<rparr>"

definition locked_move :: "(nat \<times> string) list move_prim" where
  "locked_move h n w =
     (if h = 1
      then (Some \<lparr>err_name = ''NoModificationAllowedError'', err_message = ''locked''\<rparr>, w)
      else (None, w @ [(h, n)]))"

definition example5_result :: "(nat \<times> string) list exec_vars" where
  "example5_result =
     executeRenaming (renameFile locked_move) (previewData example2_plan) None new_renamer []"

text \<open>A progress callback that throws on the second notification.\<close>

definition failing_callback :: "(nat \<times> string) list progress_cb" where
  "failing_callback current n_total originalName' newName' w =
     (if current = 2 then (Some ''display failed'', w) else (None, w))"

text \<open>A renamer whose log holds one entry of an earlier run.\<close>

definition used_renamer :: renamer where
  "used_renamer =
     \<lparr>operationLog = [\<lparr>log_operation = ''rename'', log_originalName = ''old.txt'',
                        log_newName = ''doc_1.txt'', log_status = ''success'', log_error = None\<rparr>],
      collisionResolutions = []\<rparr>"

section \<open>The planner: collision probing and the plan loop\<close>

lemma resolve_loop_Resolved:
  "resolve_loop fe pattern ci padding ext fs m a = Resolved n idx att orig \<Longrightarrow>
     ci + int a < idx \<and> idx \<le> ci + int m \<and> orig = ci \<and> int att = idx - ci
     \<and> n = generateNewName pattern idx padding ext
     \<and> \<not> hasCollisions (checkForCollisions fe n fs)
     \<and> (\<forall>j. ci + int a < j \<and> j < idx \<longrightarrow>
            hasCollisions (checkForCollisions fe (generateNewName pattern j padding ext) fs))"
proof (induction fe pattern ci padding ext fs m a rule: resolve_loop.induct)
  case (1 fe pattern ci padding ext fs m a)
  show ?case
  proof (cases "a < m")
    case False
    with "1.prems" show ?thesis by (simp add: resolve_loop.simps)
  next
    case lt: True
    let ?n0 = "generateNewName pattern (ci + int a + 1) padding ext"
    show ?thesis
    proof (cases "hasCollisions (checkForCollisions fe ?n0 fs)")
      case False
      with lt "1.prems" have "n = ?n0" "idx = ci + int a + 1" "att = a + 1" "orig = ci"
        by (auto simp add: resolve_loop.simps [of fe pattern ci padding ext fs m a] Let_def)
      with False lt show ?thesis by auto
    next
      case True
      with lt "1.prems"
      have rec: "resolve_loop fe pattern ci padding ext fs m (a + 1) = Resolved n idx att orig"
        by (simp add: resolve_loop.simps [of fe pattern ci padding ext fs m a] Let_def)
      have ih: "ci + int (a + 1) < idx \<and> idx \<le> ci + int m \<and> orig = ci \<and> int att = idx - ci
         \<and> n = generateNewName pattern idx padding ext
         \<and> \<not> hasCollisions (checkForCollisions fe n fs)
         \<and> (\<forall>j. ci + int (a + 1) < j \<and> j < idx \<longrightarrow>
            hasCollisions (checkForCollisions fe (generateNewName pattern j padding ext) fs))"
        using "1.IH" [OF lt refl refl refl _ rec] True by auto
      have "\<forall>j. ci + int a < j \<and> j < idx \<longrightarrow>
            hasCollisions (checkForCollisions fe (generateNewName pattern j padding ext) fs)"
      proof (intro allI impI)
        fix j assume j: "ci + int a < j \<and> j < idx"
        show "hasCollisions (checkForCollisions fe (generateNewName pattern j padding ext) fs)"
        proof (cases "j = ci + int a + 1")
          case True with \<open>hasCollisions (checkForCollisions fe ?n0 fs)\<close> show ?thesis by simp
        next
          case False with j have "ci + int (a + 1) < j \<and> j < idx" by simp
          with ih show ?thesis by blast
        qed
      qed
      with ih show ?thesis by auto
    qed
  qed
qed

lemma resolve_loop_Unresolved_iff:
  "(\<exists>att orig err. resolve_loop fe pattern ci padding ext fs m a = Unresolved att orig err) \<longleftrightarrow>
     (\<forall>k. a \<le> k \<and> k < m \<longrightarrow>
        hasCollisions (checkForCollisions fe (generateNewName pattern (ci + int k + 1) padding ext) fs))"
proof (induction fe pattern ci padding ext fs m a rule: resolve_loop.induct)
  case (1 fe pattern ci padding ext fs m a)
  show ?case
  proof (cases "a < m")
    case False
    then show ?thesis by (auto simp add: resolve_loop.simps [of fe pattern ci padding ext fs m a])
  next
    case lt: True
    let ?n0 = "generateNewName pattern (ci + int a + 1) padding ext"
    show ?thesis
    proof (cases "hasCollisions (checkForCollisions fe ?n0 fs)")
      case False
      with lt have "\<not> (\<exists>att orig err. resolve_loop fe pattern ci padding ext fs m a = Unresolved att orig err)"
        by (simp add: resolve_loop.simps [of fe pattern ci padding ext fs m a] Let_def)
      moreover from False lt have "\<not> (\<forall>k. a \<le> k \<and> k < m \<longrightarrow>
        hasCollisions (checkForCollisions fe (generateNewName pattern (ci + int k + 1) padding ext) fs))"
        by (intro notI) (auto dest: spec [of _ a])
      ultimately show ?thesis by blast
    next
      case True
      with lt have eq: "resolve_loop fe pattern ci padding ext fs m a
           = resolve_loop fe pattern ci padding ext fs m (a + 1)"
        by (simp add: resolve_loop.simps [of fe pattern ci padding ext fs m a] Let_def)
      have ih: "(\<exists>att orig err. resolve_loop fe pattern ci padding ext fs m (a + 1) = Unresolved att orig err) \<longleftrightarrow>
         (\<forall>k. a + 1 \<le> k \<and> k < m \<longrightarrow>
        hasCollisions (checkForCollisions fe (generateNewName pattern (ci + int k + 1) padding ext) fs))"
        using "1.IH" [OF lt refl refl refl] True by simp
      have "(\<forall>k. a + 1 \<le> k \<and> k < m \<longrightarrow>
        hasCollisions (checkForCollisions fe (generateNewName pattern (ci + int k + 1) padding ext) fs))
        \<longleftrightarrow> (\<forall>k. a \<le> k \<and> k < m \<longrightarrow>
        hasCollisions (checkForCollisions fe (generateNewName pattern (ci + int k + 1) padding ext) fs))"
        (is "?L \<longleftrightarrow> ?R")
      proof
        assume l: ?L
        show ?R
        proof (intro allI impI)
          fix k assume k: "a \<le> k \<and> k < m"
          show "hasCollisions (checkForCollisions fe (generateNewName pattern (ci + int k + 1) padding ext) fs)"
          proof (cases "k = a")
            case True with \<open>hasCollisions (checkForCollisions fe ?n0 fs)\<close> show ?thesis by simp
          next
            case False with k have "a + 1 \<le> k \<and> k < m" by simp
            with l show ?thesis by blast
          qed
        qed
      next
        assume ?R then show ?L by simp
      qed
      with ih eq show ?thesis by simp
    qed
  qed
qed

lemma resolve_loop_Unresolved_fields:
  "resolve_loop fe pattern ci padding ext fs m a = Unresolved att orig err \<Longrightarrow>
     att = m \<and> orig = ci \<and> err = ''Could not resolve collision after '' @ string_of_nat m @ '' attempts''"
proof (induction fe pattern ci padding ext fs m a rule: resolve_loop.induct)
  case (1 fe pattern ci padding ext fs m a)
  show ?case
  proof (cases "a < m")
    case False
    with "1.prems" show ?thesis by (auto simp add: resolve_loop.simps [of fe pattern ci padding ext fs m a])
  next
    case lt: True
    let ?n0 = "generateNewName pattern (ci + int a + 1) padding ext"
    show ?thesis
    proof (cases "hasCollisions (checkForCollisions fe ?n0 fs)")
      case False
      with lt "1.prems" show ?thesis
        by (auto simp add: resolve_loop.simps [of fe pattern ci padding ext fs m a] Let_def)
    next
      case True
      with lt "1.prems"
      have rec: "resolve_loop fe pattern ci padding ext fs m (a + 1) = Unresolved att orig err"
        by (simp add: resolve_loop.simps [of fe pattern ci padding ext fs m a] Let_def)
      show ?thesis using "1.IH" [OF lt refl refl refl _ rec] True by simp
    qed
  qed
qed

lemma preview_step_Inr:
  assumes "preview_step fe rc files pattern padding i f vs = Inr vs'"
  shows "\<exists>e. v_previewData vs' = v_previewData vs @ [e]
      \<and> v_usedNames vs' = insert (newName e) (v_usedNames vs)
      \<and> newName e \<notin> v_usedNames vs
      \<and> v_currentIndex vs' = actualIndex e + 1
      \<and> v_currentIndex vs \<le> actualIndex e
      \<and> actualIndex e \<le> v_currentIndex vs + 1000
      \<and> originalIndex e = i + 1
      \<and> originalName e = name f \<and> entry_file e = f
      \<and> newName e = generateNewName pattern (actualIndex e) padding (extension f)
      \<and> (collisionResolved e \<longleftrightarrow> actualIndex e \<noteq> v_currentIndex vs)"
proof (cases "rc \<and> hasCollisions (checkForCollisions fe
          (generateNewName pattern (v_currentIndex vs) padding (extension f)) files)")
  case False
  with assms show ?thesis
    by (auto simp add: preview_step_def Let_def split: if_splits)
next
  case True
  show ?thesis
  proof (cases "resolveCollision fe pattern (v_currentIndex vs) padding (extension f) files 1000")
    case (Unresolved att orig err)
    with True assms show ?thesis by (simp add: preview_step_def Let_def)
  next
    case (Resolved n idx att orig)
    then have "v_currentIndex vs < idx \<and> idx \<le> v_currentIndex vs + 1000
        \<and> n = generateNewName pattern idx padding (extension f)"
      using resolve_loop_Resolved [of fe pattern "v_currentIndex vs" padding "extension f" files 1000 0 n idx att orig]
      by (simp add: resolveCollision_def)
    with Resolved True assms show ?thesis
      by (auto simp add: preview_step_def Let_def split: if_splits)
  qed
qed

lemma preview_loop_Inr:
  "preview_loop fe rc files pattern padding i rest vs = Inr vs' \<Longrightarrow>
     \<exists>es. v_previewData vs' = v_previewData vs @ es
        \<and> length es = length rest
        \<and> v_usedNames vs' = v_usedNames vs \<union> set (map newName es)
        \<and> distinct (map newName es)
        \<and> set (map newName es) \<inter> v_usedNames vs = {}
        \<and> sorted_wrt (<) (map actualIndex es)
        \<and> (\<forall>e \<in> set es. v_currentIndex vs \<le> actualIndex e \<and> actualIndex e < v_currentIndex vs')
        \<and> v_currentIndex vs \<le> v_currentIndex vs'
        \<and> v_currentIndex vs' \<le> v_currentIndex vs + 1001 * int (length rest)
        \<and> (\<forall>k < length rest. originalIndex (es ! k) = i + k + 1
               \<and> originalName (es ! k) = name (rest ! k)
               \<and> entry_file (es ! k) = rest ! k
               \<and> newName (es ! k) = generateNewName pattern (actualIndex (es ! k)) padding (extension (rest ! k)))"
proof (induction rest arbitrary: i vs)
  case Nil
  then show ?case by simp
next
  case (Cons f rest)
  from Cons.prems obtain vs1 where
    step: "preview_step fe rc files pattern padding i f vs = Inr vs1" and
    loop: "preview_loop fe rc files pattern padding (Suc i) rest vs1 = Inr vs'"
    by (auto split: sum.splits)
  from preview_step_Inr [OF step] obtain e where e:
    "v_previewData vs1 = v_previewData vs @ [e]"
    "v_usedNames vs1 = insert (newName e) (v_usedNames vs)"
    "newName e \<notin> v_usedNames vs"
    "v_currentIndex vs1 = actualIndex e + 1"
    "v_currentIndex vs \<le> actualIndex e"
    "actualIndex e \<le> v_currentIndex vs + 1000"
    "originalIndex e = i + 1"
    "originalName e = name f" "entry_file e = f"
    "newName e = generateNewName pattern (actualIndex e) padding (extension f)"
    by blast
  from Cons.IH [OF loop] obtain es where es:
    "v_previewData vs' = v_previewData vs1 @ es"
    "length es = length rest"
    "v_usedNames vs' = v_usedNames vs1 \<union> set (map newName es)"
    "distinct (map newName es)"
    "set (map newName es) \<inter> v_usedNames vs1 = {}"
    "sorted_wrt (<) (map actualIndex es)"
    "\<forall>e \<in> set es. v_currentIndex vs1 \<le> actualIndex e \<and> actualIndex e < v_currentIndex vs'"
    "v_currentIndex vs1 \<le> v_currentIndex vs'"
    "v_currentIndex vs' \<le> v_currentIndex vs1 + 1001 * int (length rest)"
    "\<forall>k < length rest. originalIndex (es ! k) = Suc i + k + 1
               \<and> originalName (es ! k) = name (rest ! k)
               \<and> entry_file (es ! k) = rest ! k
               \<and> newName (es ! k) = generateNewName pattern (actualIndex (es ! k)) padding (extension (rest ! k))"
    by blast
  have 1: "v_previewData vs' = v_previewData vs @ (e # es)" using e es by simp
  have 2: "length (e # es) = length (f # rest)" using es by simp
  have 3: "v_usedNames vs' = v_usedNames vs \<union> set (map newName (e # es))" using e es by auto
  have 4: "distinct (map newName (e # es))" using e es by auto
  have 5: "set (map newName (e # es)) \<inter> v_usedNames vs = {}" using e es by auto
  have 6: "sorted_wrt (<) (map actualIndex (e # es))" using e es by auto
  have 7: "\<forall>x \<in> set (e # es). v_currentIndex vs \<le> actualIndex x \<and> actualIndex x < v_currentIndex vs'"
    using e es by auto
  have 8: "v_currentIndex vs \<le> v_currentIndex vs'" using e es by simp
  have 9: "\<forall>k < length (f # rest). originalIndex ((e # es) ! k) = i + k + 1
               \<and> originalName ((e # es) ! k) = name ((f # rest) ! k)
               \<and> entry_file ((e # es) ! k) = (f # rest) ! k
               \<and> newName ((e # es) ! k) = generateNewName pattern (actualIndex ((e # es) ! k)) padding (extension ((f # rest) ! k))"
  proof (intro allI impI)
    fix k assume "k < length (f # rest)"
    then show "originalIndex ((e # es) ! k) = i + k + 1
               \<and> originalName ((e # es) ! k) = name ((f # rest) ! k)
               \<and> entry_file ((e # es) ! k) = (f # rest) ! k
               \<and> newName ((e # es) ! k) = generateNewName pattern (actualIndex ((e # es) ! k)) padding (extension ((f # rest) ! k))"
      using e es(10) by (cases k) auto
  qed
  have 10: "v_currentIndex vs' \<le> v_currentIndex vs + 1001 * int (length (f # rest))"
    using e es by simp
  from 1 2 3 4 5 6 7 8 9 10 show ?case by blast
qed

lemma generatePreview_success:
  assumes "success (fst (generatePreview fe files pattern padding options this))"
  shows "\<exists>vs. preview_loop fe (case resolveCollisions options of None \<Rightarrow> True | Some b \<Rightarrow> b)
            files pattern padding 0 files
            \<lparr>v_previewData = [], v_usedNames = {}, v_collisionResolutions = [],
              v_currentIndex = (case startIndex options of None \<Rightarrow> 1 | Some n \<Rightarrow> n)\<rparr> = Inr vs
          \<and> previewData (fst (generatePreview fe files pattern padding options this)) = v_previewData vs
          \<and> isValid (validatePattern pattern)"
  using assms
  by (auto simp add: generatePreview_def Let_def split: if_splits sum.splits prod.splits)

lemma preview_loop_append:
  "preview_loop fe rc files pattern padding i (xs @ ys) vs =
     (case preview_loop fe rc files pattern padding i xs vs of
        Inl failure \<Rightarrow> Inl failure
      | Inr vs1 \<Rightarrow> preview_loop fe rc files pattern padding (i + length xs) ys vs1)"
  by (induction xs arbitrary: i vs) (auto split: sum.splits)

lemma generatePreview_failure:
  assumes "isValid (validatePattern pattern)"
    and "preview_loop fe (case resolveCollisions options of None \<Rightarrow> True | Some b \<Rightarrow> b)
            files pattern padding 0 files
            \<lparr>v_previewData = [], v_usedNames = {}, v_collisionResolutions = [],
              v_currentIndex = (case startIndex options of None \<Rightarrow> 1 | Some n \<Rightarrow> n)\<rparr> = Inl (errs, partial)"
  shows "generatePreview fe files pattern padding options this =
          (\<lparr>success = False, errors = errs, previewData = partial,
                  res_collisionResolutions = None, res_totalFiles = None, res_pattern = None,
                  res_padding = None\<rparr>, this)"
  using assms by (simp add: generatePreview_def Let_def)

lemma preview_loop_stops:
  assumes "preview_loop fe rc (pre @ f # post) pattern padding 0 pre vs0 = Inr vs"
    and "preview_step fe rc (pre @ f # post) pattern padding (length pre) f vs = Inl failure"
  shows "preview_loop fe rc (pre @ f # post) pattern padding 0 (pre @ f # post) vs0 = Inl failure"
  using assms by (simp add: preview_loop_append)

lemma string_of_nat_1000: "string_of_nat 1000 = ''1000''"
  by (simp add: string_of_nat.simps)

text \<open>
  Claim C1. Whenever \<open>generatePreview\<close> returns \<open>success = true\<close>, \<open>previewData\<close> has exactly
  as many entries as there are input files, and the \<open>newName\<close> values of the entries are
  pairwise distinct. This holds for every file list, pattern, padding, options and probe.
\<close>

theorem plan_length_and_distinct_names:
  assumes "success (fst (generatePreview fe files pattern padding options this))"
  shows "length (previewData (fst (generatePreview fe files pattern padding options this)))
           = length files
       \<and> distinct (map newName
           (previewData (fst (generatePreview fe files pattern padding options this))))"
proof -
  from generatePreview_success [OF assms] obtain vs where
    loop: "preview_loop fe (case resolveCollisions options of None \<Rightarrow> True | Some b \<Rightarrow> b)
            files pattern padding 0 files
            \<lparr>v_previewData = [], v_usedNames = {}, v_collisionResolutions = [],
              v_currentIndex = (case startIndex options of None \<Rightarrow> 1 | Some n \<Rightarrow> n)\<rparr> = Inr vs"
    and pd: "previewData (fst (generatePreview fe files pattern padding options this))
              = v_previewData vs"
    by blast
  from preview_loop_Inr [OF loop] obtain es where
    "v_previewData vs = es" "length es = length files" "distinct (map newName es)"
    by auto
  with pd show ?thesis by simp
qed

theorem plan_length_and_distinct_names_witness:
  "success example1_plan
   \<and> length (previewData example1_plan) = length [b_png, a_jpg]
   \<and> distinct (map newName (previewData example1_plan))"
proof -
  have s: "success (fst (generatePreview (fileExists (folder [''a.jpg'', ''b.png'']))
             [b_png, a_jpg] ''file_{number}'' 3 default_options new_renamer))"
    by code_simp
  have srt: "example1_sorted = [b_png, a_jpg]" by code_simp
  from plan_length_and_distinct_names [OF s] s show ?thesis
    by (simp add: example1_plan_def srt)
qed

lemma hasCollisions_iff:
  "hasCollisions (checkForCollisions fe n fs) = name_collides fe fs n"
  by (auto simp add: checkForCollisions_def name_collides_def Let_def filter_empty_conv
      split: sum.splits)

lemma collision_probing_on_checks:
  assumes valid: "isValid (validatePattern pattern)"
    and rc: "resolveCollisions options \<noteq> Some False"
    and reached: "preview_loop fe True (pre @ f # post) pattern padding 0 pre
            \<lparr>v_previewData = [], v_usedNames = {}, v_collisionResolutions = [],
              v_currentIndex = (case startIndex options of None \<Rightarrow> 1 | Some n \<Rightarrow> n)\<rparr> = Inr vs"
    and collides: "hasCollisions (checkForCollisions fe
            (generateNewName pattern (v_currentIndex vs) padding (extension f)) (pre @ f # post))"
  shows "((\<forall>k \<in> {1..1000}. hasCollisions (checkForCollisions fe
              (generateNewName pattern (v_currentIndex vs + int k) padding (extension f)) (pre @ f # post)))
          \<longrightarrow> generatePreview fe (pre @ f # post) pattern padding options this =
                (\<lparr>success = False,
                  errors = [''Could not resolve naming collision for '' @ quote (name f)
                            @ '': Could not resolve collision after 1000 attempts''],
                  previewData = v_previewData vs,
                  res_collisionResolutions = None, res_totalFiles = None, res_pattern = None,
                  res_padding = None\<rparr>, this))
       \<and> (\<forall>k \<in> {1..1000}.
             \<not> hasCollisions (checkForCollisions fe
                 (generateNewName pattern (v_currentIndex vs + int k) padding (extension f)) (pre @ f # post))
             \<and> (\<forall>j \<in> {1..<k}. hasCollisions (checkForCollisions fe
                 (generateNewName pattern (v_currentIndex vs + int j) padding (extension f)) (pre @ f # post)))
             \<longrightarrow>
             (if generateNewName pattern (v_currentIndex vs + int k) padding (extension f) \<in> v_usedNames vs
              then generatePreview fe (pre @ f # post) pattern padding options this =
                (\<lparr>success = False,
                  errors = [''Duplicate name generated: ''
                            @ quote (generateNewName pattern (v_currentIndex vs + int k) padding (extension f))
                            @ '' for files '' @ quote (name f)],
                  previewData = v_previewData vs,
                  res_collisionResolutions = None, res_totalFiles = None, res_pattern = None,
                  res_padding = None\<rparr>, this)
              else preview_step fe True (pre @ f # post) pattern padding (length pre) f vs =
                Inr \<lparr>v_previewData = v_previewData vs @
                       [\<lparr>originalName = name f,
                         newName = generateNewName pattern (v_currentIndex vs + int k) padding (extension f),
                         originalIndex = length pre + 1,
                         actualIndex = v_currentIndex vs + int k, entry_file = f,
                         collisionResolved = True, entry_size = size_f f,
                         entry_creationTime = js_or (creationTime f) (lastModified f),
                         entry_extension = extension f\<rparr>],
                    v_usedNames = insert (generateNewName pattern (v_currentIndex vs + int k) padding (extension f))
                                    (v_usedNames vs),
                    v_collisionResolutions = v_collisionResolutions vs @
                       [\<lparr>cr_originalFile = f, cr_originalName = name f,
                         cr_originalIndex = v_currentIndex vs,
                         resolvedName = generateNewName pattern (v_currentIndex vs + int k) padding (extension f),
                         resolvedIndex = v_currentIndex vs + int k, cr_attempts = k\<rparr>],
                    v_currentIndex = v_currentIndex vs + int k + 1\<rparr>))"
proof -
  let ?files = "pre @ f # post"
  let ?ci = "v_currentIndex vs"
  let ?gen = "\<lambda>j. generateNewName pattern j padding (extension f)"
  let ?col = "\<lambda>j. hasCollisions (checkForCollisions fe (?gen j) ?files)"
  have rc': "(case resolveCollisions options of None \<Rightarrow> True | Some b \<Rightarrow> b) = True"
    using rc by (cases "resolveCollisions options") auto
  have fail: "generatePreview fe ?files pattern padding options this =
          (\<lparr>success = False, errors = errs, previewData = partial,
                  res_collisionResolutions = None, res_totalFiles = None, res_pattern = None,
                  res_padding = None\<rparr>, this)"
    if "preview_step fe True ?files pattern padding (length pre) f vs = Inl (errs, partial)"
    for errs partial
  proof -
    from preview_loop_stops [OF reached that] rc'
    have "preview_loop fe (case resolveCollisions options of None \<Rightarrow> True | Some b \<Rightarrow> b)
            ?files pattern padding 0 ?files
            \<lparr>v_previewData = [], v_usedNames = {}, v_collisionResolutions = [],
              v_currentIndex = (case startIndex options of None \<Rightarrow> 1 | Some n \<Rightarrow> n)\<rparr> = Inl (errs, partial)"
      by simp
    from generatePreview_failure [OF valid this] show ?thesis .
  qed
  have A: "generatePreview fe ?files pattern padding options this =
                (\<lparr>success = False,
                  errors = [''Could not resolve naming collision for '' @ quote (name f)
                            @ '': Could not resolve collision after 1000 attempts''],
                  previewData = v_previewData vs,
                  res_collisionResolutions = None, res_totalFiles = None, res_pattern = None,
                  res_padding = None\<rparr>, this)"
    if all: "\<forall>k \<in> {1..1000}. ?col (?ci + int k)"
  proof -
    have "\<forall>k. 0 \<le> k \<and> k < 1000 \<longrightarrow> ?col (?ci + int k + 1)"
    proof (intro allI impI)
      fix k :: nat assume "0 \<le> k \<and> k < 1000"
      then have "Suc k \<in> {1..1000}" by simp
      with all have "?col (?ci + int (Suc k))" by blast
      moreover have "?ci + int (Suc k) = ?ci + int k + 1" by simp
      ultimately show "?col (?ci + int k + 1)" by metis
    qed
    then have "\<exists>att orig err.
        resolve_loop fe pattern ?ci padding (extension f) ?files 1000 0 = Unresolved att orig err"
      by (rule iffD2 [OF resolve_loop_Unresolved_iff])
    then obtain att orig err where
      u: "resolve_loop fe pattern ?ci padding (extension f) ?files 1000 0 = Unresolved att orig err"
      by blast
    from resolve_loop_Unresolved_fields [OF u]
    have err: "err = ''Could not resolve collision after 1000 attempts''"
      by (simp add: string_of_nat_1000)
    have "preview_step fe True ?files pattern padding (length pre) f vs =
       Inl ([''Could not resolve naming collision for '' @ quote (name f)
                            @ '': Could not resolve collision after 1000 attempts''], v_previewData vs)"
      using collides u err by (simp add: preview_step_def Let_def resolveCollision_def)
    from fail [OF this] show ?thesis .
  qed
  have B: "(if ?gen (?ci + int k) \<in> v_usedNames vs
              then generatePreview fe ?files pattern padding options this =
                (\<lparr>success = False,
                  errors = [''Duplicate name generated: '' @ quote (?gen (?ci + int k))
                            @ '' for files '' @ quote (name f)],
                  previewData = v_previewData vs,
                  res_collisionResolutions = None, res_totalFiles = None, res_pattern = None,
                  res_padding = None\<rparr>, this)
              else preview_step fe True ?files pattern padding (length pre) f vs =
                Inr \<lparr>v_previewData = v_previewData vs @
                       [\<lparr>originalName = name f, newName = ?gen (?ci + int k),
                         originalIndex = length pre + 1,
                         actualIndex = ?ci + int k, entry_file = f,
                         collisionResolved = True, entry_size = size_f f,
                         entry_creationTime = js_or (creationTime f) (lastModified f),
                         entry_extension = extension f\<rparr>],
                    v_usedNames = insert (?gen (?ci + int k)) (v_usedNames vs),
                    v_collisionResolutions = v_collisionResolutions vs @
                       [\<lparr>cr_originalFile = f, cr_originalName = name f,
                         cr_originalIndex = ?ci, resolvedName = ?gen (?ci + int k),
                         resolvedIndex = ?ci + int k, cr_attempts = k\<rparr>],
                    v_currentIndex = ?ci + int k + 1\<rparr>)"
    if k: "k \<in> {1..1000}" and free: "\<not> ?col (?ci + int k)"
      and before: "\<forall>j \<in> {1..<k}. ?col (?ci + int j)" for k
  proof -
    have "\<not> (\<forall>k'. 0 \<le> k' \<and> k' < 1000 \<longrightarrow> ?col (?ci + int k' + 1))"
    proof
      assume h: "\<forall>k'. 0 \<le> k' \<and> k' < 1000 \<longrightarrow> ?col (?ci + int k' + 1)"
      from k have "0 \<le> k - 1 \<and> k - 1 < 1000" by auto
      with h have "?col (?ci + int (k - 1) + 1)" by blast
      moreover from k have "?ci + int (k - 1) + 1 = ?ci + int k" by auto
      ultimately show False using free by simp
    qed
    then have nu: "\<not> (\<exists>att orig err.
         resolve_loop fe pattern ?ci padding (extension f) ?files 1000 0 = Unresolved att orig err)"
      by (simp only: resolve_loop_Unresolved_iff not_False_eq_True)
    then obtain n idx att orig where
      r: "resolve_loop fe pattern ?ci padding (extension f) ?files 1000 0 = Resolved n idx att orig"
      by (cases "resolve_loop fe pattern ?ci padding (extension f) ?files 1000 0") auto
    from resolve_loop_Resolved [OF r]
    have p: "?ci < idx" "orig = ?ci" "int att = idx - ?ci" "n = ?gen idx" "\<not> ?col idx"
      "\<forall>j. ?ci < j \<and> j < idx \<longrightarrow> ?col j"
      by auto
    have "idx = ?ci + int k"
    proof (rule ccontr)
      assume ne: "idx \<noteq> ?ci + int k"
      show False
      proof (cases "idx < ?ci + int k")
        case True
        with p(1) have "nat (idx - ?ci) \<in> {1..<k}" by auto
        with before have "?col (?ci + int (nat (idx - ?ci)))" by blast
        moreover from p(1) have "?ci + int (nat (idx - ?ci)) = idx" by simp
        ultimately show False using p(5) by simp
      next
        case False
        with ne k have "?ci < ?ci + int k \<and> ?ci + int k < idx" by simp
        with p(6) have "?col (?ci + int k)" by blast
        with free show False by simp
      qed
    qed
    with p have idx: "idx = ?ci + int k" "att = k" "n = ?gen (?ci + int k)" by auto
    show ?thesis
    proof (cases "?gen (?ci + int k) \<in> v_usedNames vs")
      case True
      have "preview_step fe True ?files pattern padding (length pre) f vs =
         Inl ([''Duplicate name generated: '' @ quote (?gen (?ci + int k))
                            @ '' for files '' @ quote (name f)], v_previewData vs)"
        using collides r idx p(2) True by (simp add: preview_step_def Let_def resolveCollision_def)
      from fail [OF this] True show ?thesis by simp
    next
      case False
      then show ?thesis
        using collides r idx p(2) by (simp add: preview_step_def Let_def resolveCollision_def)
    qed
  qed
  from A B show ?thesis by blast
qed

text \<open>
  Claim C5, as the code has it. Collision resolution is on unless the option
  \<open>resolveCollisions\<close> is set to false, and the indices are safe integers. Let the plan
  loop reach a file \<open>f\<close> (after the files \<open>pre\<close>, with loop variables \<open>vs\<close>) whose candidate
  name collides: a file of the input has that name, the existence check says the name
  exists in the folder, or the check itself fails. The planner then tries the offsets
  \<open>1, 2, 3, ...\<close>, up to \<open>1000\<close>, with the candidate recomputed at \<open>currentIndex + offset\<close>.
  If all \<open>1000\<close> candidates collide, the whole plan fails: \<open>success = false\<close>, and the one
  error message quotes the name of \<open>f\<close>. Otherwise the first offset \<open>k\<close> without a
  collision is taken: if its name was already given to an earlier file of this plan, the
  whole plan fails with an error message quoting that name and the name of \<open>f\<close>; if not,
  \<open>f\<close> is planned at index \<open>currentIndex + k\<close>, with an audit record of \<open>k\<close> attempts. No
  case skips the file and goes on.
\<close>

theorem collision_probing_bounded:
  assumes valid: "isValid (validatePattern pattern)"
    and rc: "resolveCollisions options \<noteq> Some False"
    and reached: "preview_loop fe True (pre @ f # post) pattern padding 0 pre
            \<lparr>v_previewData = [], v_usedNames = {}, v_collisionResolutions = [],
              v_currentIndex = (case startIndex options of None \<Rightarrow> 1 | Some n \<Rightarrow> n)\<rparr> = Inr vs"
    and safe: "safe_integer (v_currentIndex vs)" "safe_integer (v_currentIndex vs + 1000)"
    and collides: "name_collides fe (pre @ f # post)
              (generateNewName pattern (v_currentIndex vs) padding (extension f))"
  shows "((\<forall>k \<in> {1..1000}. name_collides fe (pre @ f # post)
              (generateNewName pattern (v_currentIndex vs + int k) padding (extension f)))
          \<longrightarrow> generatePreview fe (pre @ f # post) pattern padding options this =
                (\<lparr>success = False,
                  errors = [''Could not resolve naming collision for '' @ quote (name f)
                            @ '': Could not resolve collision after 1000 attempts''],
                  previewData = v_previewData vs,
                  res_collisionResolutions = None, res_totalFiles = None, res_pattern = None,
                  res_padding = None\<rparr>, this))
       \<and> (\<forall>k \<in> {1..1000}.
             \<not> name_collides fe (pre @ f # post)
              (generateNewName pattern (v_currentIndex vs + int k) padding (extension f))
             \<and> (\<forall>j \<in> {1..<k}. name_collides fe (pre @ f # post)
              (generateNewName pattern (v_currentIndex vs + int j) padding (extension f)))
             \<longrightarrow>
             (if generateNewName pattern (v_currentIndex vs + int k) padding (extension f) \<in> v_usedNames vs
              then generatePreview fe (pre @ f # post) pattern padding options this =
                (\<lparr>success = False,
                  errors = [''Duplicate name generated: ''
                            @ quote (generateNewName pattern (v_currentIndex vs + int k) padding (extension f))
                            @ '' for files '' @ quote (name f)],
                  previewData = v_previewData vs,
                  res_collisionResolutions = None, res_totalFiles = None, res_pattern = None,
                  res_padding = None\<rparr>, this)
              else preview_step fe True (pre @ f # post) pattern padding (length pre) f vs =
                Inr \<lparr>v_previewData = v_previewData vs @
                       [\<lparr>originalName = name f,
                         newName = generateNewName pattern (v_currentIndex vs + int k) padding (extension f),
                         originalIndex = length pre + 1,
                         actualIndex = v_currentIndex vs + int k, entry_file = f,
                         collisionResolved = True, entry_size = size_f f,
                         entry_creationTime = js_or (creationTime f) (lastModified f),
                         entry_extension = extension f\<rparr>],
                    v_usedNames = insert (generateNewName pattern (v_currentIndex vs + int k) padding (extension f))
                                    (v_usedNames vs),
                    v_collisionResolutions = v_collisionResolutions vs @
                       [\<lparr>cr_originalFile = f, cr_originalName = name f,
                         cr_originalIndex = v_currentIndex vs,
                         resolvedName = generateNewName pattern (v_currentIndex vs + int k) padding (extension f),
                         resolvedIndex = v_currentIndex vs + int k, cr_attempts = k\<rparr>],
                    v_currentIndex = v_currentIndex vs + int k + 1\<rparr>))"
  by (rule collision_probing_on_checks
      [OF valid rc reached, unfolded hasCollisions_iff, OF collides])

theorem collision_probing_bounded_witness:
  "generatePreview (\<lambda>n. Inr True) [a_jpg] ''file_{number}'' 3 default_options new_renamer =
     (\<lparr>success = False,
       errors = [''Could not resolve naming collision for '' @ quote ''a.jpg''
                 @ '': Could not resolve collision after 1000 attempts''],
       previewData = [],
       res_collisionResolutions = None, res_totalFiles = None, res_pattern = None,
       res_padding = None\<rparr>, new_renamer)
   \<and> name_collides (fileExists (folder [''a.jpg'', ''b.png'', ''c.gif'', ''file_002.jpg'']))
        [b_png, a_jpg, c_gif] ''file_002.jpg''
   \<and> \<not> name_collides (fileExists (folder [''a.jpg'', ''b.png'', ''c.gif'', ''file_002.jpg'']))
        [b_png, a_jpg, c_gif] ''file_003.jpg''
   \<and> preview_step (fileExists (folder [''a.jpg'', ''b.png'', ''c.gif'', ''file_002.jpg'']))
        True [b_png, a_jpg, c_gif] ''file_{number}'' 3 1 a_jpg
        \<lparr>v_previewData = [entry_b], v_usedNames = {''file_001.png''},
         v_collisionResolutions = [], v_currentIndex = 2\<rparr>
     = Inr \<lparr>v_previewData = [entry_b, entry_a],
            v_usedNames = {''file_001.png'', ''file_003.jpg''},
            v_collisionResolutions =
              [\<lparr>cr_originalFile = a_jpg, cr_originalName = ''a.jpg'', cr_originalIndex = 2,
                resolvedName = ''file_003.jpg'', resolvedIndex = 3, cr_attempts = 1\<rparr>],
            v_currentIndex = 4\<rparr>"
proof -
  have valid: "isValid (validatePattern ''file_{number}'')" by code_simp
  have rc: "resolveCollisions default_options \<noteq> Some False"
    by (simp add: default_options_def)
  let ?init = "\<lparr>v_previewData = [], v_usedNames = {}, v_collisionResolutions = [],
                v_currentIndex = (case startIndex default_options of None \<Rightarrow> 1 | Some n \<Rightarrow> n)\<rparr>"
  have always: "name_collides (\<lambda>n. Inr True) fs n" for n fs
    by (simp add: name_collides_def)
  have reached1: "preview_loop (\<lambda>n. Inr True) True ([] @ a_jpg # []) ''file_{number}'' 3 0 []
                    ?init = Inr ?init"
    by simp
  have safe1: "safe_integer (v_currentIndex ?init)" "safe_integer (v_currentIndex ?init + 1000)"
    by (simp_all add: safe_integer_def default_options_def)
  have first: "generatePreview (\<lambda>n. Inr True) ([] @ a_jpg # []) ''file_{number}'' 3
                 default_options new_renamer =
     (\<lparr>success = False,
       errors = [''Could not resolve naming collision for '' @ quote (name a_jpg)
                 @ '': Could not resolve collision after 1000 attempts''],
       previewData = v_previewData ?init,
       res_collisionResolutions = None, res_totalFiles = None, res_pattern = None,
       res_padding = None\<rparr>, new_renamer)"
    using collision_probing_bounded [OF valid rc reached1 safe1 always, where this = new_renamer]
      always by blast
  then have first': "generatePreview (\<lambda>n. Inr True) [a_jpg] ''file_{number}'' 3 default_options
                 new_renamer =
     (\<lparr>success = False,
       errors = [''Could not resolve naming collision for '' @ quote ''a.jpg''
                 @ '': Could not resolve collision after 1000 attempts''],
       previewData = [],
       res_collisionResolutions = None, res_totalFiles = None, res_pattern = None,
       res_padding = None\<rparr>, new_renamer)"
    by (simp add: a_jpg_def)
  let ?fe = "fileExists (folder [''a.jpg'', ''b.png'', ''c.gif'', ''file_002.jpg''])"
  let ?vs = "\<lparr>v_previewData = [entry_b], v_usedNames = {''file_001.png''},
         v_collisionResolutions = [], v_currentIndex = 2\<rparr>"
  have reached2: "preview_loop ?fe True ([b_png] @ a_jpg # [c_gif]) ''file_{number}'' 3 0 [b_png]
                    ?init = Inr ?vs"
    by code_simp
  have safe2: "safe_integer (v_currentIndex ?vs)" "safe_integer (v_currentIndex ?vs + 1000)"
    by (simp_all add: safe_integer_def)
  have col2: "name_collides ?fe ([b_png] @ a_jpg # [c_gif])
            (generateNewName ''file_{number}'' (v_currentIndex ?vs) 3 (extension a_jpg))"
    by code_simp
  have k1: "(1::nat) \<in> {1..1000}" by simp
  have free: "\<not> name_collides ?fe ([b_png] @ a_jpg # [c_gif])
            (generateNewName ''file_{number}'' (v_currentIndex ?vs + int 1) 3 (extension a_jpg))
      \<and> (\<forall>j \<in> {1..<1}. name_collides ?fe ([b_png] @ a_jpg # [c_gif])
            (generateNewName ''file_{number}'' (v_currentIndex ?vs + int j) 3 (extension a_jpg)))"
    by code_simp
  have unused: "generateNewName ''file_{number}'' (v_currentIndex ?vs + int 1) 3 (extension a_jpg)
                \<notin> v_usedNames ?vs"
    by code_simp
  note step = mp [OF bspec [OF conjunct2
        [OF collision_probing_bounded [OF valid rc reached2 safe2 col2, where this = new_renamer]]
        k1] free]
  from step unused
  have second: "preview_step ?fe True ([b_png] @ a_jpg # [c_gif]) ''file_{number}'' 3
                  (length [b_png]) a_jpg ?vs =
                Inr \<lparr>v_previewData = v_previewData ?vs @
                       [\<lparr>originalName = name a_jpg,
                         newName = generateNewName ''file_{number}'' (v_currentIndex ?vs + int 1) 3
                                     (extension a_jpg),
                         originalIndex = length [b_png] + 1,
                         actualIndex = v_currentIndex ?vs + int 1, entry_file = a_jpg,
                         collisionResolved = True, entry_size = size_f a_jpg,
                         entry_creationTime = js_or (creationTime a_jpg) (lastModified a_jpg),
                         entry_extension = extension a_jpg\<rparr>],
                    v_usedNames = insert (generateNewName ''file_{number}'' (v_currentIndex ?vs + int 1)
                                            3 (extension a_jpg))
                                    (v_usedNames ?vs),
                    v_collisionResolutions = v_collisionResolutions ?vs @
                       [\<lparr>cr_originalFile = a_jpg, cr_originalName = name a_jpg,
                         cr_originalIndex = v_currentIndex ?vs,
                         resolvedName = generateNewName ''file_{number}'' (v_currentIndex ?vs + int 1)
                                          3 (extension a_jpg),
                         resolvedIndex = v_currentIndex ?vs + int 1, cr_attempts = 1\<rparr>],
                    v_currentIndex = v_currentIndex ?vs + int 1 + 1\<rparr>"
    by (simp only: if_False)
  have ev: "Inr \<lparr>v_previewData = v_previewData ?vs @
                       [\<lparr>originalName = name a_jpg,
                         newName = generateNewName ''file_{number}'' (v_currentIndex ?vs + int 1) 3
                                     (extension a_jpg),
                         originalIndex = length [b_png] + 1,
                         actualIndex = v_currentIndex ?vs + int 1, entry_file = a_jpg,
                         collisionResolved = True, entry_size = size_f a_jpg,
                         entry_creationTime = js_or (creationTime a_jpg) (lastModified a_jpg),
                         entry_extension = extension a_jpg\<rparr>],
                    v_usedNames = insert (generateNewName ''file_{number}'' (v_currentIndex ?vs + int 1)
                                            3 (extension a_jpg))
                                    (v_usedNames ?vs),
                    v_collisionResolutions = v_collisionResolutions ?vs @
                       [\<lparr>cr_originalFile = a_jpg, cr_originalName = name a_jpg,
                         cr_originalIndex = v_currentIndex ?vs,
                         resolvedName = generateNewName ''file_{number}'' (v_currentIndex ?vs + int 1)
                                          3 (extension a_jpg),
                         resolvedIndex = v_currentIndex ?vs + int 1, cr_attempts = 1\<rparr>],
                    v_currentIndex = v_currentIndex ?vs + int 1 + 1\<rparr>
       = (Inr \<lparr>v_previewData = [entry_b, entry_a],
            v_usedNames = {''file_001.png'', ''file_003.jpg''},
            v_collisionResolutions =
              [\<lparr>cr_originalFile = a_jpg, cr_originalName = ''a.jpg'', cr_originalIndex = 2,
                resolvedName = ''file_003.jpg'', resolvedIndex = 3, cr_attempts = 1\<rparr>],
            v_currentIndex = 4\<rparr> :: (string list \<times> preview_entry list) + preview_vars)"
    by code_simp
  have second': "preview_step ?fe True [b_png, a_jpg, c_gif] ''file_{number}'' 3 1 a_jpg ?vs
     = Inr \<lparr>v_previewData = [entry_b, entry_a],
            v_usedNames = {''file_001.png'', ''file_003.jpg''},
            v_collisionResolutions =
              [\<lparr>cr_originalFile = a_jpg, cr_originalName = ''a.jpg'', cr_originalIndex = 2,
                resolvedName = ''file_003.jpg'', resolvedIndex = 3, cr_attempts = 1\<rparr>],
            v_currentIndex = 4\<rparr>"
    using trans [OF second ev] by simp
  have c1: "name_collides ?fe [b_png, a_jpg, c_gif] ''file_002.jpg''" by code_simp
  have c2: "\<not> name_collides ?fe [b_png, a_jpg, c_gif] ''file_003.jpg''" by code_simp
  show ?thesis by (intro conjI) (fact first' c1 c2 second')+
qed

text \<open>
  Claim C5 as stated fails when collision resolution is switched off by the option
  \<open>resolveCollisions = false\<close>: the candidate \<open>file_001.png\<close> collides with a file of the
  folder and the next candidate is free, but the planner probes nothing and plans the
  file onto the colliding name, with \<open>success = true\<close>.
\<close>

theorem collision_kept_when_resolution_is_off:
  "name_collides (fileExists (folder [''b.png'', ''file_001.png''])) [b_png]
     (generateNewName ''file_{number}'' 1 3 ''.png'')
   \<and> \<not> name_collides (fileExists (folder [''b.png'', ''file_001.png''])) [b_png]
     (generateNewName ''file_{number}'' 2 3 ''.png'')
   \<and> success unresolved_plan
   \<and> map newName (previewData unresolved_plan) = [''file_001.png'']
   \<and> map actualIndex (previewData unresolved_plan) = [1]
   \<and> map collisionResolved (previewData unresolved_plan) = [False]
   \<and> res_collisionResolutions unresolved_plan = Some []"
  by code_simp

text \<open>
  The check for a name already used in the plan, on the two file objects built by
  hand: the first takes \<open>f11\<close> (index 1, extension \<open>1\<close>), the second collides from index
  2 to index 10 and reaches \<open>f11\<close> at index 11.
\<close>

lemma duplicate_name_fails_plan:
  "generatePreview all_but_f11 [x_file, y_file] ''f{number}'' 0 default_options new_renamer =
     (\<lparr>success = False,
       errors = [''Duplicate name generated: '' @ quote ''f11'' @ '' for files '' @ quote ''y''],
       previewData =
         [\<lparr>originalName = ''x'', newName = ''f11'', originalIndex = 1, actualIndex = 1,
           entry_file = x_file, collisionResolved = False, entry_size = Some 1,
           entry_creationTime = Some 1, entry_extension = ''1''\<rparr>],
       res_collisionResolutions = None, res_totalFiles = None, res_pattern = None,
       res_padding = None\<rparr>, new_renamer)"
  by code_simp

text \<open>
  Claim C6. Take a successful plan whose indices are safe integers: the start index is
  one, and so is the start index plus 1001 times the number of files (a file takes at
  most 1001 index slots: up to 1000 probes and the slot it is given). Then every
  \<open>actualIndex\<close> is a safe integer not below the start index, and the \<open>actualIndex\<close>
  values grow strictly from each entry to every later one, so \<open>actualIndex\<close> never
  decreases from one entry to the next. The reason is the step of the loop: when a
  file is assigned, its \<open>actualIndex\<close> is at least the running index and at most 1000
  above it, and the running index for the next file is that \<open>actualIndex\<close> plus one; an
  index taken by an entry, and the indices skipped on the way to it, are used by no
  later entry.
\<close>

theorem actualIndex_increasing:
  "(safe_integer start \<and> safe_integer (start + 1001 * int (length files))
      \<and> start = (case startIndex options of None \<Rightarrow> 1 | Some n \<Rightarrow> n)
      \<and> success (fst (generatePreview fe files pattern padding options this))
      \<longrightarrow> sorted_wrt (<) (map actualIndex
            (previewData (fst (generatePreview fe files pattern padding options this))))
        \<and> (\<forall>e \<in> set (previewData (fst (generatePreview fe files pattern padding options this))).
              start \<le> actualIndex e \<and> safe_integer (actualIndex e)))
   \<and> (safe_integer (v_currentIndex vs) \<and> safe_integer (v_currentIndex vs + 1001)
      \<and> preview_step fe rc files pattern padding i f vs = Inr vs'
      \<longrightarrow> v_currentIndex vs \<le> actualIndex (last (v_previewData vs'))
        \<and> actualIndex (last (v_previewData vs')) \<le> v_currentIndex vs + 1000
        \<and> v_currentIndex vs' = actualIndex (last (v_previewData vs')) + 1
        \<and> safe_integer (actualIndex (last (v_previewData vs')))
        \<and> safe_integer (v_currentIndex vs'))"
proof -
  have 1: "sorted_wrt (<) (map actualIndex
            (previewData (fst (generatePreview fe files pattern padding options this))))
        \<and> (\<forall>e \<in> set (previewData (fst (generatePreview fe files pattern padding options this))).
              start \<le> actualIndex e \<and> safe_integer (actualIndex e))"
    if lo: "safe_integer start" and hi: "safe_integer (start + 1001 * int (length files))"
      and st: "start = (case startIndex options of None \<Rightarrow> 1 | Some n \<Rightarrow> n)"
      and s: "success (fst (generatePreview fe files pattern padding options this))"
  proof -
    from generatePreview_success [OF s] st obtain vs where
      loop: "preview_loop fe (case resolveCollisions options of None \<Rightarrow> True | Some b \<Rightarrow> b)
              files pattern padding 0 files
              \<lparr>v_previewData = [], v_usedNames = {}, v_collisionResolutions = [],
                v_currentIndex = start\<rparr> = Inr vs"
      and pd: "previewData (fst (generatePreview fe files pattern padding options this))
                = v_previewData vs"
      by auto
    from preview_loop_Inr [OF loop] obtain es where es:
      "v_previewData vs = es" "sorted_wrt (<) (map actualIndex es)"
      "\<forall>e \<in> set es. start \<le> actualIndex e \<and> actualIndex e < v_currentIndex vs"
      "v_currentIndex vs \<le> start + 1001 * int (length files)"
      by auto
    have "start \<le> actualIndex e \<and> safe_integer (actualIndex e)" if "e \<in> set es" for e
    proof -
      from that es(3) have "start \<le> actualIndex e" "actualIndex e < v_currentIndex vs" by auto
      with es(4) lo hi show ?thesis by (auto simp add: safe_integer_def)
    qed
    with es(1,2) pd show ?thesis by simp
  qed
  have 2: "v_currentIndex vs \<le> actualIndex (last (v_previewData vs'))
        \<and> actualIndex (last (v_previewData vs')) \<le> v_currentIndex vs + 1000
        \<and> v_currentIndex vs' = actualIndex (last (v_previewData vs')) + 1
        \<and> safe_integer (actualIndex (last (v_previewData vs')))
        \<and> safe_integer (v_currentIndex vs')"
    if lo: "safe_integer (v_currentIndex vs)" and hi: "safe_integer (v_currentIndex vs + 1001)"
      and st: "preview_step fe rc files pattern padding i f vs = Inr vs'"
  proof -
    from preview_step_Inr [OF st] obtain e where e:
      "v_previewData vs' = v_previewData vs @ [e]"
      "v_currentIndex vs' = actualIndex e + 1" "v_currentIndex vs \<le> actualIndex e"
      "actualIndex e \<le> v_currentIndex vs + 1000"
      by blast
    with lo hi have "safe_integer (actualIndex e)" "safe_integer (actualIndex e + 1)"
      by (auto simp add: safe_integer_def)
    with e show ?thesis by simp
  qed
  from 1 2 show ?thesis by blast
qed

theorem actualIndex_increasing_witness:
  "safe_integer 1 \<and> safe_integer (1 + 1001 * int (length [b_png, a_jpg, c_gif]))
   \<and> (1::int) = (case startIndex default_options of None \<Rightarrow> 1 | Some n \<Rightarrow> n)
   \<and> success example2_plan
   \<and> sorted_wrt (<) (map actualIndex (previewData example2_plan))
   \<and> map actualIndex (previewData example2_plan) = [1, 3, 4]
   \<and> safe_integer 2 \<and> safe_integer (2 + 1001)
   \<and> \<not> isl (preview_step (fileExists (folder [''a.jpg'', ''b.png'', ''c.gif'', ''file_002.jpg'']))
              True [b_png, a_jpg, c_gif] ''file_{number}'' 3 1 a_jpg
              \<lparr>v_previewData = [entry_b], v_usedNames = {''file_001.png''},
               v_collisionResolutions = [], v_currentIndex = 2\<rparr>)
   \<and> v_currentIndex (projr
         (preview_step (fileExists (folder [''a.jpg'', ''b.png'', ''c.gif'', ''file_002.jpg'']))
              True [b_png, a_jpg, c_gif] ''file_{number}'' 3 1 a_jpg
              \<lparr>v_previewData = [entry_b], v_usedNames = {''file_001.png''},
               v_collisionResolutions = [], v_currentIndex = 2\<rparr>))
       = actualIndex (last (v_previewData (projr
         (preview_step (fileExists (folder [''a.jpg'', ''b.png'', ''c.gif'', ''file_002.jpg'']))
              True [b_png, a_jpg, c_gif] ''file_{number}'' 3 1 a_jpg
              \<lparr>v_previewData = [entry_b], v_usedNames = {''file_001.png''},
               v_collisionResolutions = [], v_currentIndex = 2\<rparr>)))) + 1
   \<and> actualIndex (last (v_previewData (projr
         (preview_step (fileExists (folder [''a.jpg'', ''b.png'', ''c.gif'', ''file_002.jpg'']))
              True [b_png, a_jpg, c_gif] ''file_{number}'' 3 1 a_jpg
              \<lparr>v_previewData = [entry_b], v_usedNames = {''file_001.png''},
               v_collisionResolutions = [], v_currentIndex = 2\<rparr>)))) = 3"
proof -
  let ?vs = "\<lparr>v_previewData = [entry_b], v_usedNames = {''file_001.png''},
               v_collisionResolutions = [], v_currentIndex = 2\<rparr>"
  let ?step = "preview_step (fileExists (folder [''a.jpg'', ''b.png'', ''c.gif'', ''file_002.jpg'']))
              True [b_png, a_jpg, c_gif] ''file_{number}'' 3 1 a_jpg ?vs"
  have lo: "safe_integer 1" by (simp add: safe_integer_def)
  have hi: "safe_integer (1 + 1001 * int (length [b_png, a_jpg, c_gif]))"
    by (simp add: safe_integer_def)
  have st: "(1::int) = (case startIndex default_options of None \<Rightarrow> 1 | Some n \<Rightarrow> n)"
    by (simp add: default_options_def)
  have s: "success (fst (generatePreview
             (fileExists (folder [''a.jpg'', ''b.png'', ''c.gif'', ''file_002.jpg'']))
             [b_png, a_jpg, c_gif] ''file_{number}'' 3 default_options new_renamer))"
    by code_simp
  have v: "map actualIndex (previewData example2_plan) = [1, 3, 4]"
    by code_simp
  have lo2: "safe_integer 2" by (simp add: safe_integer_def)
  have hi2: "safe_integer (2 + 1001)" by (simp add: safe_integer_def)
  have lo2': "safe_integer (v_currentIndex ?vs)" using lo2 by simp
  have hi2': "safe_integer (v_currentIndex ?vs + 1001)" using hi2 by simp
  have r: "\<not> isl ?step" by code_simp
  then have step: "?step = Inr (projr ?step)" by simp
  have a: "actualIndex (last (v_previewData (projr ?step))) = 3" by code_simp
  note t = actualIndex_increasing [where fe = "fileExists (folder [''a.jpg'', ''b.png'', ''c.gif'', ''file_002.jpg''])"
      and files = "[b_png, a_jpg, c_gif]" and pattern = "''file_{number}''" and padding = 3
      and options = default_options and this = new_renamer and rc = True and i = 1 and f = a_jpg
      and start = 1 and vs = ?vs and vs' = "projr ?step"]
  from conjunct1 [OF mp [OF conjunct1 [OF t] conjI [OF lo conjI [OF hi conjI [OF st s]]]]]
  have srt: "sorted_wrt (<) (map actualIndex (previewData example2_plan))"
    by (simp only: example2_plan_def)
  from conjunct1 [OF conjunct2 [OF conjunct2
      [OF mp [OF conjunct2 [OF t] conjI [OF lo2' conjI [OF hi2' step]]]]]]
  have nxt: "v_currentIndex (projr ?step) = actualIndex (last (v_previewData (projr ?step))) + 1" .
  from s have s': "success example2_plan" by (simp only: example2_plan_def)
  show ?thesis by (intro conjI) (fact lo hi st s' srt v lo2 hi2 r nxt a)+
qed

text \<open>
  Claim C7, as the code has it. For every entry of a successful plan, \<open>originalIndex\<close> is
  the 1-based position of the file in the input list, whatever the start index is and
  however many index slots earlier entries took; \<open>actualIndex\<close> is the index used in its
  \<open>newName\<close>, that is, \<open>newName\<close> is the name generated from the pattern at \<open>actualIndex\<close>
  with the file's extension; and the entry refers to the file at its position.
\<close>

theorem entry_indices:
  assumes "success (fst (generatePreview fe files pattern padding options this))"
    and "k < length files"
  shows "originalIndex (previewData (fst (generatePreview fe files pattern padding options this)) ! k)
           = k + 1
       \<and> entry_file (previewData (fst (generatePreview fe files pattern padding options this)) ! k)
           = files ! k
       \<and> newName (previewData (fst (generatePreview fe files pattern padding options this)) ! k)
           = generateNewName pattern
               (actualIndex (previewData (fst (generatePreview fe files pattern padding options this)) ! k))
               padding (extension (files ! k))"
proof -
  from generatePreview_success [OF assms(1)] obtain vs where
    loop: "preview_loop fe (case resolveCollisions options of None \<Rightarrow> True | Some b \<Rightarrow> b)
            files pattern padding 0 files
            \<lparr>v_previewData = [], v_usedNames = {}, v_collisionResolutions = [],
              v_currentIndex = (case startIndex options of None \<Rightarrow> 1 | Some n \<Rightarrow> n)\<rparr> = Inr vs"
    and pd: "previewData (fst (generatePreview fe files pattern padding options this))
              = v_previewData vs"
    by blast
  from preview_loop_Inr [OF loop] obtain es where
    es: "v_previewData vs = es"
    and every: "\<forall>k < length files. originalIndex (es ! k) = 0 + k + 1
               \<and> originalName (es ! k) = name (files ! k)
               \<and> entry_file (es ! k) = files ! k
               \<and> newName (es ! k)
                   = generateNewName pattern (actualIndex (es ! k)) padding (extension (files ! k))"
    by auto
  from every assms(2) have "originalIndex (es ! k) = 0 + k + 1
               \<and> originalName (es ! k) = name (files ! k)
               \<and> entry_file (es ! k) = files ! k
               \<and> newName (es ! k)
                   = generateNewName pattern (actualIndex (es ! k)) padding (extension (files ! k))"
    by blast
  with pd es show ?thesis by simp
qed

theorem entry_indices_witness:
  "success example2_plan \<and> (2::nat) < length [b_png, a_jpg, c_gif]
   \<and> originalIndex (previewData example2_plan ! 2) = 2 + 1
   \<and> entry_file (previewData example2_plan ! 2) = [b_png, a_jpg, c_gif] ! 2
   \<and> newName (previewData example2_plan ! 2)
       = generateNewName ''file_{number}'' (actualIndex (previewData example2_plan ! 2)) 3
           (extension ([b_png, a_jpg, c_gif] ! 2))"
proof -
  have s: "success (fst (generatePreview
             (fileExists (folder [''a.jpg'', ''b.png'', ''c.gif'', ''file_002.jpg'']))
             [b_png, a_jpg, c_gif] ''file_{number}'' 3 default_options new_renamer))"
    by code_simp
  have k: "(2::nat) < length [b_png, a_jpg, c_gif]" by simp
  from entry_indices [OF s k] s k show ?thesis
    by (simp only: example2_plan_def)
qed

text \<open>
  Claim C7 as stated fails. In the plan for \<open>b.png, a.jpg, c.gif\<close> where \<open>file_002.jpg\<close> is
  taken, \<open>a.jpg\<close> moves to index 3, so the loop reaches \<open>c.gif\<close> with the running index
  4 and computes its first candidate \<open>file_004.gif\<close> there, without any adjustment; the
  entry nevertheless records \<open>originalIndex = 3\<close>, the position of \<open>c.gif\<close> in the list.
\<close>

theorem originalIndex_is_list_position:
  "success example2_plan
   \<and> \<not> isl example2_reaching_c \<and> v_currentIndex (projr example2_reaching_c) = 4
   \<and> originalName (previewData example2_plan ! 2) = ''c.gif''
   \<and> newName (previewData example2_plan ! 2) = generateNewName ''file_{number}'' 4 3 ''.gif''
   \<and> collisionResolved (previewData example2_plan ! 2) = False
   \<and> actualIndex (previewData example2_plan ! 2) = 4
   \<and> originalIndex (previewData example2_plan ! 2) = 3
   \<and> int (originalIndex (previewData example2_plan ! 2))
        \<noteq> v_currentIndex (projr example2_reaching_c)"
  by code_simp

section \<open>Name generation\<close>

lemma numberPlaceholders_occurs:
  "1 \<le> numberPlaceholders (pre @ ''{number}'' @ post)"
  by (induction pre) auto

lemma replace_first_single:
  "numberPlaceholders (pre @ ''{number}'' @ post) = 1 \<Longrightarrow>
     replace_first ''{number}'' rep (pre @ ''{number}'' @ post) = pre @ rep @ post"
proof (induction pre)
  case Nil
  then show ?case by simp
next
  case (Cons c pre)
  let ?rest = "pre @ ''{number}'' @ post"
  show ?case
  proof (cases "prefix ''{number}'' (c # ?rest)")
    case False
    then have a: "numberPlaceholders (c # ?rest) = numberPlaceholders ?rest"
      by (metis numberPlaceholders.simps(2))
    from False have b: "replace_first ''{number}'' rep (c # ?rest)
                          = c # replace_first ''{number}'' rep ?rest"
      by (metis replace_first.simps(2))
    from Cons.prems a have "numberPlaceholders ?rest = 1" by simp
    from Cons.IH [OF this] b show ?thesis by simp
  next
    case True
    then obtain t where t: "?rest = ''number}'' @ t"
      by (auto simp add: prefix_def)
    from True have "numberPlaceholders (c # ?rest) = Suc (numberPlaceholders (drop 7 ?rest))"
      by (metis numberPlaceholders.simps(2))
    with Cons.prems have zero: "numberPlaceholders (drop 7 ?rest) = 0" by simp
    show ?thesis
    proof (cases "7 \<le> length pre")
      case True
      then have "drop 7 ?rest = drop 7 pre @ ''{number}'' @ post" by simp
      with numberPlaceholders_occurs [of "drop 7 pre" post] zero show ?thesis by simp
    next
      case False
      then have "length pre < 7" by simp
      then have "take 7 ?rest ! length pre = ?rest ! length pre"
        by (rule nth_take)
      moreover from \<open>length pre < 7\<close> have "length pre < length (take 7 ?rest)"
        by simp
      ultimately have "?rest ! length pre \<in> set (take 7 ?rest)"
        by (metis nth_mem)
      moreover have "?rest ! length pre = CHR ''{''" by (simp add: nth_append)
      ultimately have m: "CHR ''{'' \<in> set (take 7 ?rest)" by metis
      from t have "take 7 ?rest = take 7 (''number}'' @ t)" by metis
      then have tk: "take 7 ?rest = ''number}''" by simp
      have "CHR ''{'' \<notin> set ''number}''" by simp
      with m tk have False by metis
      then show ?thesis ..
    qed
  qed
qed

lemma concat_replicate_single: "concat (replicate k [c]) = replicate k c"
  by (induction k) auto

lemma padStart_zero: "padStart s n ''0'' = replicate (n - length s) CHR ''0'' @ s"
  by (simp add: padStart_def concat_replicate_single)

lemma js_trim_dot: "startsWith_dot ext \<Longrightarrow> js_trim ext \<noteq> []"
proof -
  assume "startsWith_dot ext"
  then obtain t where ext: "ext = CHR ''.'' # t"
    by (auto simp add: startsWith_dot_def split: list.splits)
  have nw: "\<not> js_whitespace CHR ''.''" by (simp add: js_whitespace_def)
  then have "dropWhile js_whitespace ext = ext" using ext by simp
  moreover have "dropWhile js_whitespace (rev ext) \<noteq> []"
    using nw ext by (auto simp add: dropWhile_eq_Nil_conv)
  ultimately show ?thesis by (simp add: js_trim_def)
qed

lemma metadata_extension_wf: "wf_extension (metadata_extension fileName)"
proof (cases "lastIndexOf CHR ''.'' fileName > 0")
  case False
  then show ?thesis by (simp add: metadata_extension_def wf_extension_def Let_def)
next
  case True
  then have mem: "CHR ''.'' \<in> set fileName"
    by (auto simp add: lastIndexOf_def split: if_splits)
  let ?k = "length (takeWhile (\<lambda>x. x \<noteq> CHR ''.'') (rev fileName))"
  have "takeWhile (\<lambda>x. x \<noteq> CHR ''.'') (rev fileName) \<noteq> rev fileName"
    using mem by (simp add: takeWhile_eq_all_conv)
  then have "?k \<noteq> length (rev fileName)"
    by (metis takeWhile_eq_take take_all order_refl)
  with length_takeWhile_le [of "\<lambda>x. x \<noteq> CHR ''.''" "rev fileName"]
  have k: "?k < length fileName" by simp
  then have "rev fileName ! ?k = CHR ''.''"
    using nth_length_takeWhile [of "\<lambda>x. x \<noteq> CHR ''.''" "rev fileName"] by simp
  with k have dot: "fileName ! (length fileName - 1 - ?k) = CHR ''.''"
    by (simp add: rev_nth)
  from mem k have idx: "nat (lastIndexOf CHR ''.'' fileName) = length fileName - 1 - ?k"
    by (simp add: lastIndexOf_def)
  from k have lt: "length fileName - 1 - ?k < length fileName" by simp
  from Cons_nth_drop_Suc [OF lt] dot
  have "drop (length fileName - 1 - ?k) fileName
         = CHR ''.'' # drop (Suc (length fileName - 1 - ?k)) fileName" by simp
  with True idx show ?thesis
    by (simp add: metadata_extension_def wf_extension_def Let_def startsWith_dot_def)
qed

lemma digit_nth: "n < 10 \<Longrightarrow> of_char (''0123456789'' ! n) = (48 + n :: nat)"
proof -
  assume "n < 10"
  then have "n \<in> set [0..<10]" by simp
  moreover have "\<forall>k \<in> set [0..<10]. of_char (''0123456789'' ! k) = (48 + k :: nat)"
    by code_simp
  ultimately show ?thesis by blast
qed

lemma decimal_value_snoc:
  "decimal_value (s @ [c]) = 10 * decimal_value s + (of_char c - 48)"
  by (simp add: decimal_value_def)

lemma decimal_value_string_of_nat: "decimal_value (string_of_nat n) = n"
proof (induction n rule: string_of_nat.induct)
  case (1 n)
  show ?case
  proof (cases "n < 10")
    case True
    then show ?thesis
      by (simp add: string_of_nat.simps [of n] decimal_value_def digit_nth)
  next
    case False
    with 1 have "decimal_value (string_of_nat (n div 10)) = n div 10" by simp
    with False show ?thesis
      by (simp add: string_of_nat.simps [of n] decimal_value_snoc digit_nth)
  qed
qed

lemma digit_in_digits: "n < 10 \<Longrightarrow> ''0123456789'' ! n \<in> set ''0123456789''"
proof -
  assume "n < 10"
  then have "n < length ''0123456789''" by simp
  then show ?thesis by (rule nth_mem)
qed

lemma digit_not_zero: "0 < n \<Longrightarrow> n < 10 \<Longrightarrow> ''0123456789'' ! n \<noteq> CHR ''0''"
proof
  assume n: "0 < n" "n < 10" and z: "''0123456789'' ! n = CHR ''0''"
  from digit_nth [OF n(2)] z have "of_char CHR ''0'' = (48 + n :: nat)" by simp
  with n(1) show False by simp
qed

lemma string_of_nat_shape:
  "string_of_nat n \<noteq> [] \<and> set (string_of_nat n) \<subseteq> set ''0123456789''
   \<and> (0 < n \<longrightarrow> hd (string_of_nat n) \<noteq> CHR ''0'')"
proof (induction n rule: string_of_nat.induct)
  case (1 n)
  show ?case
  proof (cases "n < 10")
    case True
    then have eq: "string_of_nat n = [''0123456789'' ! n]"
      by (simp add: string_of_nat.simps [of n])
    from True have "''0123456789'' ! n \<in> set ''0123456789''" by (rule digit_in_digits)
    moreover have "0 < n \<longrightarrow> ''0123456789'' ! n \<noteq> CHR ''0''"
      using True digit_not_zero by blast
    ultimately show ?thesis by (simp only: eq) simp
  next
    case False
    then have eq: "string_of_nat n = string_of_nat (n div 10) @ [''0123456789'' ! (n mod 10)]"
      by (simp add: string_of_nat.simps [of n])
    from False 1 have ih: "string_of_nat (n div 10) \<noteq> []
        \<and> set (string_of_nat (n div 10)) \<subseteq> set ''0123456789''
        \<and> (0 < n div 10 \<longrightarrow> hd (string_of_nat (n div 10)) \<noteq> CHR ''0'')"
      by simp
    have d: "''0123456789'' ! (n mod 10) \<in> set ''0123456789''"
      by (rule digit_in_digits) simp
    from False have pos: "0 < n div 10" by simp
    from ih pos have hd: "hd (string_of_nat n) \<noteq> CHR ''0''"
      by (simp add: eq hd_append)
    from ih have "string_of_nat n \<noteq> []" by (simp add: eq)
    moreover from ih d have "set (string_of_nat n) \<subseteq> set ''0123456789''"
      by (simp only: eq set_append) simp
    ultimately show ?thesis using hd by blast
  qed
qed

lemma string_of_nat_zero: "string_of_nat 0 = ''0''"
  by (simp add: string_of_nat.simps)

lemma decimal_numeral_string_of_nat: "decimal_numeral n (string_of_nat n)"
proof (cases "n = 0")
  case True
  then show ?thesis
    by (simp add: decimal_numeral_def string_of_nat_zero decimal_value_def)
next
  case False
  with string_of_nat_shape [of n] decimal_value_string_of_nat [of n] show ?thesis
    by (simp add: decimal_numeral_def)
qed

lemma decimal_rendering_String_number: "decimal_rendering i (String_number i)"
  by (simp add: decimal_rendering_def String_number_def decimal_numeral_string_of_nat)

text \<open>
  Claim C2. For a pattern with a single placeholder, \<open>pattern = pre @ ''{number}'' @ post\<close>,
  a file whose extension is empty or begins with the dot, and an index that is a safe
  integer, the name generated at the index is \<open>pre\<close>, then the index rendered in
  decimal and left-padded with zeros to the padding width, then \<open>post\<close>, then the
  extension as it is; with padding 0 the decimal rendering has no leading zeros added.
  The extension that \<open>getFileMetadata\<close> computes from a file name is always of that kind.
  In particular the files \<open>a.jpg\<close> (size 10) and \<open>b.png\<close> (size 5), sorted by
  \<open>size-asc\<close> and planned with the pattern \<open>file_{number}\<close> and padding 3, give
  \<open>b.png \<rightarrow> file_001.png\<close>, \<open>a.jpg \<rightarrow> file_002.jpg\<close>.
\<close>

theorem candidate_name:
  assumes "numberPlaceholders pattern = 1"
    and "pattern = pre @ ''{number}'' @ post"
    and "wf_extension ext"
    and "safe_integer index"
  shows "(\<exists>d. decimal_rendering index d
           \<and> generateNewName pattern index padding ext
               = pre @ zero_padded padding d @ post @ ext
           \<and> generateNewName pattern index 0 ext = pre @ d @ post @ ext)
       \<and> wf_extension (metadata_extension fileName)
       \<and> example1_sorted = [b_png, a_jpg]
       \<and> success example1_plan
       \<and> map (\<lambda>e. (originalName e, newName e)) (previewData example1_plan)
           = [(''b.png'', ''file_001.png''), (''a.jpg'', ''file_002.jpg'')]"
proof -
  have rep: "replace_first ''{number}'' r pattern = pre @ r @ post" for r
    using assms(1,2) replace_first_single by simp
  from assms(3) have ext: "ext = [] \<or> js_trim ext \<noteq> []"
    using js_trim_dot by (auto simp add: wf_extension_def)
  have 1: "generateNewName pattern index padding ext
           = pre @ zero_padded padding (String_number index) @ post @ ext" for padding
    using rep ext by (auto simp add: generateNewName_def Let_def padStart_zero zero_padded_def)
  from 1 [of 0] have 2: "generateNewName pattern index 0 ext = pre @ String_number index @ post @ ext"
    by (simp add: zero_padded_def)
  note 3 = decimal_rendering_String_number [of index]
  from 1 2 3 have e: "\<exists>d. decimal_rendering index d
           \<and> generateNewName pattern index padding ext
               = pre @ zero_padded padding d @ post @ ext
           \<and> generateNewName pattern index 0 ext = pre @ d @ post @ ext"
    by blast
  have 4: "example1_sorted = [b_png, a_jpg]" by code_simp
  have 5: "success example1_plan" by code_simp
  have 6: "map (\<lambda>e. (originalName e, newName e)) (previewData example1_plan)
           = [(''b.png'', ''file_001.png''), (''a.jpg'', ''file_002.jpg'')]" by code_simp
  note 7 = metadata_extension_wf [of fileName]
  from e 4 5 6 7 show ?thesis by blast
qed

theorem candidate_name_witness:
  "numberPlaceholders ''file_{number}'' = 1
   \<and> ''file_{number}'' = ''file_'' @ ''{number}'' @ []
   \<and> wf_extension ''.png''
   \<and> safe_integer 1
   \<and> (\<exists>d. decimal_rendering 1 d
           \<and> generateNewName ''file_{number}'' 1 3 ''.png''
               = ''file_'' @ zero_padded 3 d @ [] @ ''.png''
           \<and> generateNewName ''file_{number}'' 1 0 ''.png'' = ''file_'' @ d @ [] @ ''.png'')
   \<and> decimal_rendering 1 ''1''
   \<and> generateNewName ''file_{number}'' 1 3 ''.png'' = ''file_001.png''
   \<and> generateNewName ''file_{number}'' 1 0 ''.png'' = ''file_1.png''"
proof -
  have h1: "numberPlaceholders ''file_{number}'' = 1" by code_simp
  have h2: "''file_{number}'' = ''file_'' @ ''{number}'' @ []" by simp
  have h3: "wf_extension ''.png''" by code_simp
  have h4: "safe_integer 1" by (simp add: safe_integer_def)
  note t = conjunct1 [OF candidate_name [OF h1 h2 h3 h4, of 3]]
  have r: "decimal_rendering 1 ''1''" by code_simp
  have g: "generateNewName ''file_{number}'' 1 3 ''.png'' = ''file_001.png''" by code_simp
  have g0: "generateNewName ''file_{number}'' 1 0 ''.png'' = ''file_1.png''" by code_simp
  show ?thesis by (intro conjI) (fact h1 h2 h3 h4 t r g g0)+
qed

section \<open>The sorter\<close>












lemma sortFiles_empty:
  "as_array h v = None \<or> as_array h v = Some [] \<Longrightarrow> sortFiles h v key = (Inr (length h), h @ [[]])"
  by (auto simp add: sortFiles_def alloc_def)

lemma get_sortOption_Undefined:
  "key \<notin> set sort_keys \<Longrightarrow> key \<notin> set Object_prototype \<Longrightarrow> get_sortOption key = Undefined"
  by (simp add: get_sortOption_def sortOptions_def sort_keys_def)

lemma sortFiles_invalid:
  "as_array h v = Some xs \<Longrightarrow> xs \<noteq> [] \<Longrightarrow> key \<notin> set sort_keys \<Longrightarrow> key \<notin> set Object_prototype
     \<Longrightarrow> sortFiles h v key = (Inl (''Invalid sort option: '' @ key), h)"
  by (simp add: sortFiles_def get_sortOption_Undefined)

text \<open>
  Claim C8, as the code has it. \<open>sortFiles\<close> called with an empty array or with a value
  that is no array returns a new empty array without error, whatever the key is, a key
  outside the four included. Called with a non-empty array and a key that names no
  property of the table of sort options (none of the four keys, no member that objects
  inherit), it fails with the error \<open>Invalid sort option: key\<close>, and the store is unchanged.
\<close>

theorem sortFiles_empty_and_invalid_key:
  "((as_array h v = None \<or> as_array h v = Some [])
      \<longrightarrow> sortFiles h v key = (Inr (length h), h @ [[]]))
   \<and> (as_array h v = Some xs \<and> xs \<noteq> [] \<and> key \<notin> set sort_keys \<and> key \<notin> set Object_prototype
      \<longrightarrow> sortFiles h v key = (Inl (''Invalid sort option: '' @ key), h))"
  using sortFiles_empty [of h v key] sortFiles_invalid [of h v xs key] by blast

theorem sortFiles_empty_and_invalid_key_witness:
  "as_array [] NonArray = None
   \<and> sortFiles [] NonArray ''size-asc'' = (Inr 0, [[]])
   \<and> as_array [[]] (ArrayRef 0) = Some []
   \<and> sortFiles [[]] (ArrayRef 0) ''date-desc'' = (Inr 1, [[], []])
   \<and> as_array [[a_jpg]] (ArrayRef 0) = Some [a_jpg] \<and> [a_jpg] \<noteq> []
   \<and> ''bogus'' \<notin> set sort_keys \<and> ''bogus'' \<notin> set Object_prototype
   \<and> sortFiles [[a_jpg]] (ArrayRef 0) ''bogus'' = (Inl ''Invalid sort option: bogus'', [[a_jpg]])"
proof -
  have a1: "as_array [] NonArray = None" by code_simp
  have a2: "as_array [[]] (ArrayRef 0) = Some []" by code_simp
  have a3: "as_array [[a_jpg]] (ArrayRef 0) = Some [a_jpg] \<and> [a_jpg] \<noteq> []
            \<and> ''bogus'' \<notin> set sort_keys \<and> ''bogus'' \<notin> set Object_prototype" by code_simp
  from sortFiles_empty_and_invalid_key [where h = "[]" and v = NonArray and key = "''size-asc''"] a1
  have r1: "sortFiles [] NonArray ''size-asc'' = (Inr 0, [[]])" by simp
  from sortFiles_empty_and_invalid_key [where h = "[[]]" and v = "ArrayRef 0" and key = "''date-desc''"] a2
  have r2: "sortFiles [[]] (ArrayRef 0) ''date-desc'' = (Inr 1, [[], []])" by simp
  from sortFiles_empty_and_invalid_key [where h = "[[a_jpg]]" and v = "ArrayRef 0" and xs = "[a_jpg]"
      and key = "''bogus''"] a3
  have r3: "sortFiles [[a_jpg]] (ArrayRef 0) ''bogus'' = (Inl ''Invalid sort option: bogus'', [[a_jpg]])"
    by simp
  from a1 a2 a3 r1 r2 r3 show ?thesis by blast
qed

text \<open>
  Claim C8 as stated fails: for an empty array and a key outside the four, the two rules
  cannot both apply, and the code applies the first. \<open>sortFiles\<close> returns a new empty
  array and raises no error.
\<close>

theorem empty_list_unknown_key_returns_empty:
  "as_array [[]] (ArrayRef 0) = Some []
   \<and> ''bogus'' \<notin> set sort_keys
   \<and> sortFiles [[]] (ArrayRef 0) ''bogus'' = (Inr 1, [[], []])"
  by code_simp

section \<open>The executor\<close>

lemma rename_loop_append:
  "rename_loop cb rn len i (xs @ ys) vs =
     rename_loop cb rn len (i + length xs) ys (rename_loop cb rn len i xs vs)"
  by (induction xs arbitrary: i vs) simp_all

text \<open>What one iteration adds to the lists.\<close>

lemma rename_step_effect:
  "(\<exists>msg. failed (x_results (rename_step cb rn len i item vs)) = failed (x_results vs) @
            [\<lparr>ko_originalName = originalName item, ko_newName = newName item,
              ko_file = entry_file item, ko_error = msg\<rparr>]
         \<and> successful (x_results (rename_step cb rn len i item vs)) = successful (x_results vs)
         \<and> operationLog (x_this (rename_step cb rn len i item vs)) = operationLog (x_this vs) @
            [\<lparr>log_operation = ''rename'', log_originalName = originalName item,
              log_newName = newName item, log_status = ''failed'', log_error = Some msg\<rparr>])
   \<or> (failed (x_results (rename_step cb rn len i item vs)) = failed (x_results vs)
         \<and> successful (x_results (rename_step cb rn len i item vs)) = successful (x_results vs) @
            [\<lparr>ok_originalName = originalName item, ok_newName = newName item,
              ok_file = entry_file item\<rparr>]
         \<and> operationLog (x_this (rename_step cb rn len i item vs)) = operationLog (x_this vs) @
            [\<lparr>log_operation = ''rename'', log_originalName = originalName item,
              log_newName = newName item, log_status = ''success'', log_error = None\<rparr>])"
  by (auto simp add: rename_step_def on_failure_def on_success_def Let_def
      split: prod.splits option.splits sum.splits)

lemma rename_step_frame:
  "totalFiles (x_results (rename_step cb rn len i item vs)) = totalFiles (x_results vs)
   \<and> collisionResolutions (x_this (rename_step cb rn len i item vs)) = collisionResolutions (x_this vs)"
  by (auto simp add: rename_step_def on_failure_def on_success_def Let_def
      split: prod.splits option.splits sum.splits)

lemma rename_step_log:
  "map (\<lambda>l. (log_originalName l, log_newName l)) (operationLog (x_this (rename_step cb rn len i item vs)))
     = map (\<lambda>l. (log_originalName l, log_newName l)) (operationLog (x_this vs))
         @ [(originalName item, newName item)]"
  using rename_step_effect [of cb rn len i item vs] by auto

lemma rename_step_counts:
  "length (successful (x_results (rename_step cb rn len i item vs)))
     + length (failed (x_results (rename_step cb rn len i item vs)))
   = Suc (length (successful (x_results vs)) + length (failed (x_results vs)))"
  using rename_step_effect [of cb rn len i item vs] by auto

lemma rename_loop_log:
  "map (\<lambda>l. (log_originalName l, log_newName l)) (operationLog (x_this (rename_loop cb rn len i items vs)))
     = map (\<lambda>l. (log_originalName l, log_newName l)) (operationLog (x_this vs))
         @ map (\<lambda>e. (originalName e, newName e)) items"
  by (induction items arbitrary: i vs) (simp_all add: rename_step_log)

lemma rename_loop_counts:
  "length (successful (x_results (rename_loop cb rn len i items vs)))
     + length (failed (x_results (rename_loop cb rn len i items vs)))
   = length (successful (x_results vs)) + length (failed (x_results vs)) + length items"
  by (induction items arbitrary: i vs) (simp_all add: rename_step_counts)

lemma rename_loop_frame:
  "totalFiles (x_results (rename_loop cb rn len i items vs)) = totalFiles (x_results vs)
   \<and> collisionResolutions (x_this (rename_loop cb rn len i items vs)) = collisionResolutions (x_this vs)"
  by (induction items arbitrary: i vs) (simp_all add: rename_step_frame)

lemma rename_step_calls_no_callback:
  "x_calls (rename_step None rn len i item vs) = x_calls vs @ [(handle (entry_file item), newName item)]"
  by (auto simp add: rename_step_def notify_def on_failure_def on_success_def Let_def
      split: prod.splits option.splits sum.splits)

lemma rename_loop_calls_no_callback:
  "x_calls (rename_loop None rn len i items vs)
     = x_calls vs @ map (\<lambda>e. (handle (entry_file e), newName e)) items"
  by (induction items arbitrary: i vs) (simp_all add: rename_step_calls_no_callback)

lemma rename_step_primitive_fails:
  assumes "notify cb i len item (x_world vs) = (None, w1)"
    and "rn (handle (entry_file item)) (newName item) w1 = (res, w2)"
    and "res \<noteq> Inr True"
  shows "rename_step cb rn len i item vs =
           on_failure item (captured_message res)
             (vs\<lparr>x_calls := x_calls vs @ [(handle (entry_file item), newName item)],
                 x_world := w2\<rparr>)"
  using assms by (cases res) (auto simp add: rename_step_def Let_def captured_message_def)

lemma rename_step_callback_throws:
  assumes "notify cb i len item (x_world vs) = (Some msg, w1)"
  shows "rename_step cb rn len i item vs = on_failure item msg (vs\<lparr>x_world := w1\<rparr>)"
  using assms by (simp add: rename_step_def)

lemma executeRenaming_split:
  "executeRenaming rn (pre @ item # post) cb this w =
     rename_loop cb rn (length (pre @ item # post)) (Suc (length pre)) post
       (rename_step cb rn (length (pre @ item # post)) (length pre) item
          (rename_loop cb rn (length (pre @ item # post)) 0 pre
             (exec_init (pre @ item # post) this w)))"
  by (simp add: executeRenaming_def rename_loop_append)

lemma rename_step_calls:
  "x_calls (rename_step cb rn len i item vs) = x_calls vs
   \<or> x_calls (rename_step cb rn len i item vs) = x_calls vs @ [(handle (entry_file item), newName item)]"
  by (auto simp add: rename_step_def on_failure_def on_success_def Let_def
      split: prod.splits option.splits sum.splits)

lemma rename_loop_calls:
  "\<exists>cs. x_calls (rename_loop cb rn len i items vs) = x_calls vs @ cs
        \<and> subseq cs (map (\<lambda>e. (handle (entry_file e), newName e)) items)"
proof (induction items arbitrary: i vs)
  case Nil
  then show ?case by simp
next
  case (Cons item items)
  from Cons.IH [of "Suc i" "rename_step cb rn len i item vs"] obtain cs where
    cs: "x_calls (rename_loop cb rn len (Suc i) items (rename_step cb rn len i item vs))
           = x_calls (rename_step cb rn len i item vs) @ cs"
        "subseq cs (map (\<lambda>e. (handle (entry_file e), newName e)) items)"
    by blast
  from rename_step_calls [of cb rn len i item vs] show ?case
  proof
    assume "x_calls (rename_step cb rn len i item vs) = x_calls vs"
    with cs show ?thesis by auto
  next
    assume "x_calls (rename_step cb rn len i item vs)
              = x_calls vs @ [(handle (entry_file item), newName item)]"
    with cs have "x_calls (rename_loop cb rn len i (item # items) vs)
        = x_calls vs @ ((handle (entry_file item), newName item) # cs)
      \<and> subseq ((handle (entry_file item), newName item) # cs)
           (map (\<lambda>e. (handle (entry_file e), newName e)) (item # items))"
      by simp
    then show ?thesis by blast
  qed
qed

lemma rename_step_failed_grows:
  "\<exists>fs. failed (x_results (rename_step cb rn len i item vs)) = failed (x_results vs) @ fs"
  using rename_step_effect [of cb rn len i item vs] by auto

lemma rename_loop_failed_grows:
  "\<exists>fs. failed (x_results (rename_loop cb rn len i items vs)) = failed (x_results vs) @ fs"
proof (induction items arbitrary: i vs)
  case Nil
  then show ?case by simp
next
  case (Cons item items)
  from Cons.IH [of "Suc i" "rename_step cb rn len i item vs"]
    rename_step_failed_grows [of cb rn len i item vs]
  show ?case by auto
qed

lemma rename_loop_log_grows:
  "prefix (operationLog (x_this vs)) (operationLog (x_this (rename_loop cb rn len i items vs)))"
proof (induction items arbitrary: i vs)
  case Nil
  then show ?case by simp
next
  case (Cons item items)
  from rename_step_effect [of cb rn len i item vs]
  have "prefix (operationLog (x_this vs)) (operationLog (x_this (rename_step cb rn len i item vs)))"
    by auto
  with Cons.IH [where i = "Suc i" and vs = "rename_step cb rn len i item vs"] show ?case
    by (auto intro: prefix_order.trans)
qed

lemma executeRenaming_counts:
  "totalFiles (x_results (executeRenaming rn entries cb this w)) = length entries
   \<and> length (successful (x_results (executeRenaming rn entries cb this w)))
       + length (failed (x_results (executeRenaming rn entries cb this w))) = length entries"
  using rename_loop_counts [of cb rn "length entries" 0 entries "exec_init entries this w"]
    rename_loop_frame [of cb rn "length entries" 0 entries "exec_init entries this w"]
  by (simp add: executeRenaming_def exec_init_def)

text \<open>
  Claim C4. \<open>executeRenaming\<close> handles the entries one at a time, in the order given:
  the calls of the rename primitive are, in order, those of the entries (all of them
  when no callback is given). When the primitive fails on an entry, with whatever error
  or by returning false, the entry is appended to \<open>failed\<close> with the message captured and
  the loop goes on
  with the remaining entries; every entry ends in \<open>successful\<close> or in \<open>failed\<close>, and
  \<open>totalFiles\<close> is the number of entries. In particular, executing three entries where
  only the rename of the second fails, its file being locked, gives \<open>successful\<close> with
  entries 1 and 3, \<open>failed\<close> with entry 2, and \<open>totalFiles = 3\<close>.
\<close>

theorem rename_failure_continues:
  assumes reached: "vs = rename_loop cb rn (length (pre @ item # post)) 0 pre
                           (exec_init (pre @ item # post) this w)"
    and notified: "notify cb (length pre) (length (pre @ item # post)) item (x_world vs) = (None, w1)"
    and fails: "rn (handle (entry_file item)) (newName item) w1 = (res, w2)"
    and not_ok: "res \<noteq> Inr True"
  shows "executeRenaming rn (pre @ item # post) cb this w =
           rename_loop cb rn (length (pre @ item # post)) (Suc (length pre)) post
             (on_failure item (captured_message res)
                (vs\<lparr>x_calls := x_calls vs @ [(handle (entry_file item), newName item)],
                    x_world := w2\<rparr>))
       \<and> (\<exists>fs. failed (x_results (executeRenaming rn (pre @ item # post) cb this w)) =
             failed (x_results vs) @
             \<lparr>ko_originalName = originalName item, ko_newName = newName item,
              ko_file = entry_file item, ko_error = captured_message res\<rparr> # fs)
       \<and> totalFiles (x_results (executeRenaming rn (pre @ item # post) cb this w))
            = length (pre @ item # post)
       \<and> length (successful (x_results (executeRenaming rn (pre @ item # post) cb this w)))
            + length (failed (x_results (executeRenaming rn (pre @ item # post) cb this w)))
            = length (pre @ item # post)
       \<and> subseq (x_calls (executeRenaming rn (pre @ item # post) cb this w))
            (map (\<lambda>e. (handle (entry_file e), newName e)) (pre @ item # post))
       \<and> x_calls (executeRenaming rn (pre @ item # post) None this w)
            = map (\<lambda>e. (handle (entry_file e), newName e)) (pre @ item # post)
       \<and> map ok_originalName (successful (x_results example5_result)) = [''b.png'', ''c.gif'']
       \<and> map ko_originalName (failed (x_results example5_result)) = [''a.jpg'']
       \<and> map ko_error (failed (x_results example5_result))
            = [''File is locked or cannot be modified'']
       \<and> totalFiles (x_results example5_result) = 3"
proof -
  let ?len = "length (pre @ item # post)"
  let ?after = "on_failure item (captured_message res)
                (vs\<lparr>x_calls := x_calls vs @ [(handle (entry_file item), newName item)],
                    x_world := w2\<rparr>)"
  have step: "rename_step cb rn ?len (length pre) item vs = ?after"
    using notified fails not_ok by (rule rename_step_primitive_fails [where rn = rn])
  have 1: "executeRenaming rn (pre @ item # post) cb this w
             = rename_loop cb rn ?len (Suc (length pre)) post ?after"
    using executeRenaming_split [of rn pre item post cb this w] reached step by simp
  from rename_loop_failed_grows [of cb rn ?len "Suc (length pre)" post ?after]
  obtain fs where "failed (x_results (rename_loop cb rn ?len (Suc (length pre)) post ?after))
                     = failed (x_results ?after) @ fs"
    by blast
  with 1 have 2: "\<exists>fs. failed (x_results (executeRenaming rn (pre @ item # post) cb this w)) =
             failed (x_results vs) @
             \<lparr>ko_originalName = originalName item, ko_newName = newName item,
              ko_file = entry_file item, ko_error = captured_message res\<rparr> # fs"
    by (simp add: on_failure_def)
  note 3 = executeRenaming_counts [of rn "pre @ item # post" cb this w]
  from rename_loop_calls [of cb rn ?len 0 "pre @ item # post" "exec_init (pre @ item # post) this w"]
  have 4: "subseq (x_calls (executeRenaming rn (pre @ item # post) cb this w))
            (map (\<lambda>e. (handle (entry_file e), newName e)) (pre @ item # post))"
    by (auto simp add: executeRenaming_def exec_init_def)
  have 5: "x_calls (executeRenaming rn (pre @ item # post) None this w)
            = map (\<lambda>e. (handle (entry_file e), newName e)) (pre @ item # post)"
    by (simp add: executeRenaming_def rename_loop_calls_no_callback exec_init_def)
  have 6: "map ok_originalName (successful (x_results example5_result)) = [''b.png'', ''c.gif'']
       \<and> map ko_originalName (failed (x_results example5_result)) = [''a.jpg'']
       \<and> map ko_error (failed (x_results example5_result))
            = [''File is locked or cannot be modified'']
       \<and> totalFiles (x_results example5_result) = 3"
    by code_simp
  from 1 2 3 4 5 6 show ?thesis by blast
qed

theorem rename_failure_continues_witness:
  "previewData example2_plan = [entry_b] @ entry_a # [entry_c]
   \<and> notify None (length [entry_b]) (length ([entry_b] @ entry_a # [entry_c])) entry_a
        (x_world (rename_loop None (renameFile locked_move) (length ([entry_b] @ entry_a # [entry_c]))
                    0 [entry_b] (exec_init ([entry_b] @ entry_a # [entry_c]) new_renamer [])))
        = (None, [(2, ''file_001.png'')])
   \<and> renameFile locked_move (handle (entry_file entry_a)) (newName entry_a) [(2, ''file_001.png'')]
        = (Inl ''File is locked or cannot be modified'', [(2, ''file_001.png'')])
   \<and> (\<exists>fs. failed (x_results (executeRenaming (renameFile locked_move)
                ([entry_b] @ entry_a # [entry_c]) None new_renamer [])) =
             failed (x_results (rename_loop None (renameFile locked_move)
                    (length ([entry_b] @ entry_a # [entry_c]))
                    0 [entry_b] (exec_init ([entry_b] @ entry_a # [entry_c]) new_renamer []))) @
             \<lparr>ko_originalName = originalName entry_a, ko_newName = newName entry_a,
              ko_file = entry_file entry_a,
              ko_error = ''File is locked or cannot be modified''\<rparr> # fs)
   \<and> x_calls (executeRenaming (renameFile locked_move) ([entry_b] @ entry_a # [entry_c]) None
        new_renamer [])
        = [(2, ''file_001.png''), (1, ''file_003.jpg''), (3, ''file_004.gif'')]
   \<and> x_world (executeRenaming (renameFile locked_move) ([entry_b] @ entry_a # [entry_c]) None
        new_renamer [])
        = [(2, ''file_001.png''), (3, ''file_004.gif'')]"
proof -
  have e: "previewData example2_plan = [entry_b] @ entry_a # [entry_c]" by code_simp
  have h2: "notify None (length [entry_b]) (length ([entry_b] @ entry_a # [entry_c])) entry_a
        (x_world (rename_loop None (renameFile locked_move) (length ([entry_b] @ entry_a # [entry_c]))
                    0 [entry_b] (exec_init ([entry_b] @ entry_a # [entry_c]) new_renamer [])))
        = (None, [(2, ''file_001.png'')])"
    by code_simp
  have h3: "renameFile locked_move (handle (entry_file entry_a)) (newName entry_a)
              [(2, ''file_001.png'')]
        = (Inl ''File is locked or cannot be modified'', [(2, ''file_001.png'')])"
    by code_simp
  have v: "x_calls (executeRenaming (renameFile locked_move) ([entry_b] @ entry_a # [entry_c]) None
        new_renamer [])
        = [(2, ''file_001.png''), (1, ''file_003.jpg''), (3, ''file_004.gif'')]
   \<and> x_world (executeRenaming (renameFile locked_move) ([entry_b] @ entry_a # [entry_c]) None
        new_renamer [])
        = [(2, ''file_001.png''), (3, ''file_004.gif'')]"
    by code_simp
  have ne: "Inl ''File is locked or cannot be modified'' \<noteq> (Inr True :: string + bool)" by simp
  have m: "captured_message (Inl ''File is locked or cannot be modified'')
             = ''File is locked or cannot be modified''"
    by (simp add: captured_message_def)
  note t = rename_failure_continues [OF refl h2 h3 ne]
  from conjunct1 [OF conjunct2 [OF t]]
  have f: "\<exists>fs. failed (x_results (executeRenaming (renameFile locked_move)
                ([entry_b] @ entry_a # [entry_c]) None new_renamer [])) =
             failed (x_results (rename_loop None (renameFile locked_move)
                    (length ([entry_b] @ entry_a # [entry_c]))
                    0 [entry_b] (exec_init ([entry_b] @ entry_a # [entry_c]) new_renamer []))) @
             \<lparr>ko_originalName = originalName entry_a, ko_newName = newName entry_a,
              ko_file = entry_file entry_a,
              ko_error = ''File is locked or cannot be modified''\<rparr> # fs"
    by (simp only: m)
  from e h2 h3 f v show ?thesis by blast
qed

text \<open>
  Claim C9, as the code has it. Every call of \<open>executeRenaming\<close> first resets the
  operation log to empty and then appends exactly one log entry per entry handled, in
  order, whatever the outcome: the log after the call names the entries of that call
  and nothing else, and the log at any point of the loop is a prefix of the final one.
  \<open>generatePreview\<close> never changes the log, and \<open>clearLogs\<close> empties it.
\<close>

theorem operation_log_per_run:
  "map (\<lambda>l. (log_originalName l, log_newName l))
       (getOperationLog (x_this (executeRenaming rn entries cb this w)))
     = map (\<lambda>e. (originalName e, newName e)) entries
   \<and> length (getOperationLog (x_this (executeRenaming rn entries cb this w))) = length entries
   \<and> prefix (getOperationLog (x_this (rename_loop cb rn (length (pre @ post)) 0 pre
                (exec_init (pre @ post) this w))))
        (getOperationLog (x_this (executeRenaming rn (pre @ post) cb this w)))
   \<and> getOperationLog (snd (generatePreview fe files pattern padding options this))
       = getOperationLog this
   \<and> getOperationLog (clearLogs this) = []"
proof -
  have 1: "map (\<lambda>l. (log_originalName l, log_newName l))
       (getOperationLog (x_this (executeRenaming rn entries cb this w)))
     = map (\<lambda>e. (originalName e, newName e)) entries"
    using rename_loop_log [of cb rn "length entries" 0 entries "exec_init entries this w"]
    by (simp add: executeRenaming_def exec_init_def getOperationLog_def)
  from arg_cong [OF 1, of length]
  have 2: "length (getOperationLog (x_this (executeRenaming rn entries cb this w))) = length entries"
    by simp
  have 3: "getOperationLog (snd (generatePreview fe files pattern padding options this))
       = getOperationLog this"
    by (auto simp add: generatePreview_def getOperationLog_def Let_def split: sum.splits prod.splits)
  have 4: "getOperationLog (clearLogs this) = []"
    by (simp add: getOperationLog_def clearLogs_def)
  have 5: "prefix (getOperationLog (x_this (rename_loop cb rn (length (pre @ post)) 0 pre
                (exec_init (pre @ post) this w))))
        (getOperationLog (x_this (executeRenaming rn (pre @ post) cb this w)))"
    using rename_loop_log_grows [where vs = "rename_loop cb rn (length (pre @ post)) 0 pre
                (exec_init (pre @ post) this w)" and cb = cb and rn = rn
                and len = "length (pre @ post)" and i = "length pre" and items = post]
    by (simp add: executeRenaming_def getOperationLog_def rename_loop_append)
  from 1 2 3 4 5 show ?thesis by blast
qed

theorem operation_log_per_run_witness:
  "map (\<lambda>l. (log_originalName l, log_newName l))
       (getOperationLog (x_this (executeRenaming (renameFile locked_move)
           [entry_b, entry_a, entry_c] None used_renamer [])))
     = [(''b.png'', ''file_001.png''), (''a.jpg'', ''file_003.jpg''), (''c.gif'', ''file_004.gif'')]
   \<and> map log_status
       (getOperationLog (x_this (executeRenaming (renameFile locked_move)
           [entry_b, entry_a, entry_c] None used_renamer [])))
     = [''success'', ''failed'', ''success'']
   \<and> getOperationLog (clearLogs used_renamer) = []"
proof -
  have v: "map (\<lambda>e. (originalName e, newName e)) [entry_b, entry_a, entry_c]
     = [(''b.png'', ''file_001.png''), (''a.jpg'', ''file_003.jpg''), (''c.gif'', ''file_004.gif'')]"
    by code_simp
  have st: "map log_status
       (getOperationLog (x_this (executeRenaming (renameFile locked_move)
           [entry_b, entry_a, entry_c] None used_renamer [])))
     = [''success'', ''failed'', ''success'']"
    by code_simp
  note t = operation_log_per_run [where rn = "renameFile locked_move"
      and entries = "[entry_b, entry_a, entry_c]" and cb = None and this = used_renamer
      and w = "[]"]
  from trans [OF conjunct1 [OF t] v]
  have n: "map (\<lambda>l. (log_originalName l, log_newName l))
       (getOperationLog (x_this (executeRenaming (renameFile locked_move)
           [entry_b, entry_a, entry_c] None used_renamer [])))
     = [(''b.png'', ''file_001.png''), (''a.jpg'', ''file_003.jpg''), (''c.gif'', ''file_004.gif'')]" .
  from conjunct2 [OF conjunct2 [OF conjunct2 [OF conjunct2 [OF t]]]]
  have c: "getOperationLog (clearLogs used_renamer) = []" .
  show ?thesis by (intro conjI) (fact n st c)+
qed

text \<open>
  Claim C9 as stated fails: \<open>executeRenaming\<close> itself clears the log. A renamer whose log
  holds an entry of an earlier run has an empty log after executing the empty plan, and
  after executing three entries its log holds those three only.
\<close>

theorem execute_resets_operation_log:
  "getOperationLog used_renamer \<noteq> []
   \<and> getOperationLog (x_this (executeRenaming (renameFile locked_move) [] None used_renamer [])) = []
   \<and> map log_originalName (getOperationLog (x_this
         (executeRenaming (renameFile locked_move) [entry_b, entry_a, entry_c] None used_renamer [])))
       = [''b.png'', ''a.jpg'', ''c.gif'']"
  by code_simp

text \<open>
  Claim C10. When the progress callback throws while notifying for an entry, the entry
  is appended to \<open>failed\<close> with the message of the callback's error, the rename primitive
  is not called for it (the calls made are those for entries before it and after it, and
  the world is as the callback left it), and the loop goes on with the remaining entries.
\<close>

theorem callback_failure_skips_rename:
  assumes reached: "vs = rename_loop cb rn (length (pre @ item # post)) 0 pre
                           (exec_init (pre @ item # post) this w)"
    and thrown: "notify cb (length pre) (length (pre @ item # post)) item (x_world vs) = (Some msg, w1)"
  shows "executeRenaming rn (pre @ item # post) cb this w =
           rename_loop cb rn (length (pre @ item # post)) (Suc (length pre)) post
             (on_failure item msg (vs\<lparr>x_world := w1\<rparr>))
       \<and> x_calls (on_failure item msg (vs\<lparr>x_world := w1\<rparr>)) = x_calls vs
       \<and> x_world (on_failure item msg (vs\<lparr>x_world := w1\<rparr>)) = w1
       \<and> (\<exists>fs. failed (x_results (executeRenaming rn (pre @ item # post) cb this w)) =
             failed (x_results vs) @
             \<lparr>ko_originalName = originalName item, ko_newName = newName item,
              ko_file = entry_file item, ko_error = msg\<rparr> # fs)
       \<and> (\<exists>cs ds. x_calls (executeRenaming rn (pre @ item # post) cb this w) = cs @ ds
             \<and> subseq cs (map (\<lambda>e. (handle (entry_file e), newName e)) pre)
             \<and> subseq ds (map (\<lambda>e. (handle (entry_file e), newName e)) post))"
proof -
  let ?len = "length (pre @ item # post)"
  let ?after = "on_failure item msg (vs\<lparr>x_world := w1\<rparr>)"
  have step: "rename_step cb rn ?len (length pre) item vs = ?after"
    by (rule rename_step_callback_throws [OF thrown])
  have 1: "executeRenaming rn (pre @ item # post) cb this w
             = rename_loop cb rn ?len (Suc (length pre)) post ?after"
    using executeRenaming_split [of rn pre item post cb this w] reached step by simp
  have 2: "x_calls ?after = x_calls vs" "x_world ?after = w1"
    by (simp_all add: on_failure_def)
  from rename_loop_failed_grows [of cb rn ?len "Suc (length pre)" post ?after]
  obtain fs where "failed (x_results (rename_loop cb rn ?len (Suc (length pre)) post ?after))
                     = failed (x_results ?after) @ fs"
    by blast
  with 1 have 3: "\<exists>fs. failed (x_results (executeRenaming rn (pre @ item # post) cb this w)) =
             failed (x_results vs) @
             \<lparr>ko_originalName = originalName item, ko_newName = newName item,
              ko_file = entry_file item, ko_error = msg\<rparr> # fs"
    by (simp add: on_failure_def)
  from rename_loop_calls [of cb rn ?len 0 pre "exec_init (pre @ item # post) this w"] reached
  obtain cs where cs: "x_calls vs = cs"
      "subseq cs (map (\<lambda>e. (handle (entry_file e), newName e)) pre)"
    by (auto simp add: exec_init_def)
  from rename_loop_calls [of cb rn ?len "Suc (length pre)" post ?after]
  obtain ds where ds: "x_calls (rename_loop cb rn ?len (Suc (length pre)) post ?after)
                         = x_calls ?after @ ds"
      "subseq ds (map (\<lambda>e. (handle (entry_file e), newName e)) post)"
    by blast
  from 1 2 cs ds have 4: "\<exists>cs ds. x_calls (executeRenaming rn (pre @ item # post) cb this w) = cs @ ds
             \<and> subseq cs (map (\<lambda>e. (handle (entry_file e), newName e)) pre)
             \<and> subseq ds (map (\<lambda>e. (handle (entry_file e), newName e)) post)"
    by auto
  from 1 2 3 4 show ?thesis by blast
qed

theorem callback_failure_skips_rename_witness:
  "notify (Some failing_callback) (length [entry_b]) (length ([entry_b] @ entry_a # [entry_c]))
        entry_a
        (x_world (rename_loop (Some failing_callback) (renameFile locked_move)
                    (length ([entry_b] @ entry_a # [entry_c]))
                    0 [entry_b] (exec_init ([entry_b] @ entry_a # [entry_c]) new_renamer [])))
        = (Some ''display failed'', [(2, ''file_001.png'')])
   \<and> (\<exists>fs. failed (x_results (executeRenaming (renameFile locked_move)
                ([entry_b] @ entry_a # [entry_c]) (Some failing_callback) new_renamer [])) =
             failed (x_results (rename_loop (Some failing_callback) (renameFile locked_move)
                    (length ([entry_b] @ entry_a # [entry_c]))
                    0 [entry_b] (exec_init ([entry_b] @ entry_a # [entry_c]) new_renamer []))) @
             \<lparr>ko_originalName = originalName entry_a, ko_newName = newName entry_a,
              ko_file = entry_file entry_a, ko_error = ''display failed''\<rparr> # fs)
   \<and> x_calls (executeRenaming (renameFile locked_move) ([entry_b] @ entry_a # [entry_c])
        (Some failing_callback) new_renamer [])
        = [(2, ''file_001.png''), (3, ''file_004.gif'')]
   \<and> map ko_error (failed (x_results (executeRenaming (renameFile locked_move)
        ([entry_b] @ entry_a # [entry_c]) (Some failing_callback) new_renamer [])))
        = [''display failed'']
   \<and> map ok_originalName (successful (x_results (executeRenaming (renameFile locked_move)
        ([entry_b] @ entry_a # [entry_c]) (Some failing_callback) new_renamer [])))
        = [''b.png'', ''c.gif'']"
proof -
  have h2: "notify (Some failing_callback) (length [entry_b])
        (length ([entry_b] @ entry_a # [entry_c])) entry_a
        (x_world (rename_loop (Some failing_callback) (renameFile locked_move)
                    (length ([entry_b] @ entry_a # [entry_c]))
                    0 [entry_b] (exec_init ([entry_b] @ entry_a # [entry_c]) new_renamer [])))
        = (Some ''display failed'', [(2, ''file_001.png'')])"
    by code_simp
  have v: "x_calls (executeRenaming (renameFile locked_move) ([entry_b] @ entry_a # [entry_c])
        (Some failing_callback) new_renamer [])
        = [(2, ''file_001.png''), (3, ''file_004.gif'')]
   \<and> map ko_error (failed (x_results (executeRenaming (renameFile locked_move)
        ([entry_b] @ entry_a # [entry_c]) (Some failing_callback) new_renamer [])))
        = [''display failed'']
   \<and> map ok_originalName (successful (x_results (executeRenaming (renameFile locked_move)
        ([entry_b] @ entry_a # [entry_c]) (Some failing_callback) new_renamer [])))
        = [''b.png'', ''c.gif'']"
    by code_simp
  from callback_failure_skips_rename [OF refl h2] h2 v
  show ?thesis by blast
qed

end
